theory Spec2Isabelle
  imports Complex_Main "HOL-Library.Multiset"
begin

section \<open>Notification router (modules/notification-router.js)\<close>

text \<open>
  The router is a JavaScript class whose fields are mutated by its methods.  Each method
  becomes a function that takes the router and returns the updated router.  \<open>Date.now()\<close>
  is an explicit argument: one reading for every stretch of code that runs without an
  \<open>await\<close>, so \<open>notify\<close> takes the reading of its admission check and a second one
  for the \<open>updateRateLimits\<close> call that runs after the awaited sends.  What a channel adapter's
  \<open>send\<close> does is outside the router; it is an argument too (\<open>adapter\<close>), a function
  that either throws (\<open>Inl\<close> the error message) or returns (\<open>Inr\<close>).
\<close>

subsection \<open>Data\<close>

record rate_limit =
  limit_max :: int
  limit_window :: int

record options =
  opt_type :: "string option"
  opt_priority :: "string option"
  opt_module :: "string option"
  opt_channels :: "string list option"
  opt_aggregated :: "bool option"
  opt_count :: "nat option"

record notifier_config =
  cfg_enabled :: "bool option"
  cfg_rateLimit :: "rate_limit option"

record notifier =
  n_config :: notifier_config
  n_name :: string
  n_enabled :: bool

record rule =
  rule_type :: "string option"
  rule_priority :: "string option"
  rule_keywords :: "string list option"
  rule_modules :: "string list option"
  rule_channels :: "string list"

record config =
  globalRateLimit :: "rate_limit option"
  defaultChannels :: "string list option"
  notificationRules :: "rule list option"
  telegram :: "notifier_config option"
  discord :: "notifier_config option"
  slack :: "notifier_config option"
  email :: "notifier_config option"

record rl_record =
  rl_count :: int
  resetAt :: int

record queued =
  q_message :: string
  q_options :: options
  q_channels :: "string list"

record router =
  config :: config
  notifiers :: "(string \<times> notifier) list"
  rules :: "rule list"
  rateLimits :: "string \<rightharpoonup> rl_record"
  messageQueue :: "queued list"
  processing :: bool

record delivery =
  d_success :: bool
  d_successful :: nat
  d_failed :: nat
  d_total :: nat
  d_results :: "(string + string) list"

datatype notify_result = Failure string | Delivery delivery

type_synonym adapter = "string \<Rightarrow> string \<Rightarrow> options \<Rightarrow> string + string"

subsection \<open>JavaScript helpers\<close>

text \<open>A string is truthy when it is present and not empty.\<close>

definition truthy :: "string option \<Rightarrow> bool" where
  "truthy s = (case s of None \<Rightarrow> False | Some v \<Rightarrow> v \<noteq> [])"

text \<open>\<open>Map.prototype.set\<close> on an insertion-ordered map: an existing key keeps its place.\<close>

fun Map_set :: "'k \<Rightarrow> 'v \<Rightarrow> ('k \<times> 'v) list \<Rightarrow> ('k \<times> 'v) list" where
  "Map_set k v [] = [(k, v)]"
| "Map_set k v (p # ps) = (if fst p = k then (k, v) # ps else p # Map_set k v ps)"

text \<open>\<open>Set.prototype.add\<close> on an insertion-ordered set.\<close>

definition Set_add :: "'a \<Rightarrow> 'a list \<Rightarrow> 'a list" where
  "Set_add x xs = (if x \<in> set xs then xs else xs @ [x])"

text \<open>
  \<open>String.prototype.toLowerCase\<close> and \<open>includes\<close>.  Strings are byte lists here;
  the letters A to Z are folded, every other byte is left as it is.  This is what
  JavaScript does on text whose cased letters are all ASCII; a cased letter outside ASCII
  is folded by JavaScript and not here.
\<close>

definition lower_char :: "char \<Rightarrow> char" where
  "lower_char c =
     (let n = (of_char c :: nat) in if 65 \<le> n \<and> n \<le> 90 then char_of (n + 32) else c)"

definition toLowerCase :: "string \<Rightarrow> string" where
  "toLowerCase s = map lower_char s"

fun starts_with :: "string \<Rightarrow> string \<Rightarrow> bool" where
  "starts_with s [] = True"
| "starts_with [] (k # ks) = False"
| "starts_with (c # cs) (k # ks) = (c = k \<and> starts_with cs ks)"

fun str_includes :: "string \<Rightarrow> string \<Rightarrow> bool" where
  "str_includes [] k = (k = [])"
| "str_includes (c # cs) k = (starts_with (c # cs) k \<or> str_includes cs k)"

subsection \<open>Construction\<close>

definition new_notifier :: "string \<Rightarrow> notifier_config \<Rightarrow> notifier" where
  "new_notifier nm c = \<lparr>n_config = c, n_name = nm, n_enabled = (cfg_enabled c \<noteq> Some False)\<rparr>"

definition NotificationRouter :: "config \<Rightarrow> router" where
  "NotificationRouter cfg =
     \<lparr>config = cfg, notifiers = [],
      rules = (case notificationRules cfg of None \<Rightarrow> [] | Some rs \<Rightarrow> rs),
      rateLimits = Map.empty, messageQueue = [], processing = False\<rparr>"

definition load_notifier ::
  "string \<Rightarrow> notifier_config option \<Rightarrow> (string \<times> notifier) list \<Rightarrow> (string \<times> notifier) list" where
  "load_notifier nm c ns = (case c of None \<Rightarrow> ns | Some nc \<Rightarrow> Map_set nm (new_notifier nm nc) ns)"

definition init :: "router \<Rightarrow> router" where
  "init r =
     r\<lparr>notifiers :=
        load_notifier ''email'' (email (config r))
         (load_notifier ''slack'' (slack (config r))
           (load_notifier ''discord'' (discord (config r))
             (load_notifier ''telegram'' (telegram (config r)) (notifiers r))))\<rparr>"

subsection \<open>Channel selection\<close>

definition has :: "router \<Rightarrow> string \<Rightarrow> bool" where
  "has r ch = (map_of (notifiers r) ch \<noteq> None)"

definition matchRule :: "rule \<Rightarrow> string \<Rightarrow> options \<Rightarrow> bool" where
  "matchRule rule message options =
     (if truthy (rule_type rule) \<and> opt_type options \<noteq> rule_type rule then False
      else if truthy (rule_priority rule) \<and> opt_priority options \<noteq> rule_priority rule then False
      else if (case rule_keywords rule of None \<Rightarrow> False
               | Some ks \<Rightarrow> \<not> list_ex (\<lambda>keyword. str_includes (toLowerCase message) (toLowerCase keyword)) ks)
        then False
      else if (case rule_modules rule of None \<Rightarrow> False
               | Some ms \<Rightarrow> \<not> truthy (opt_module options) \<or> opt_module options \<notin> Some ` set ms)
        then False
      else True)"

text \<open>\<open>chs.forEach(ch => { if (this.notifiers.has(ch)) matchedChannels.add(ch) })\<close>\<close>

fun addChannels :: "router \<Rightarrow> string list \<Rightarrow> string list \<Rightarrow> string list" where
  "addChannels r [] matched = matched"
| "addChannels r (ch # chs) matched =
     addChannels r chs (if has r ch then Set_add ch matched else matched)"

fun matchRules :: "router \<Rightarrow> rule list \<Rightarrow> string \<Rightarrow> options \<Rightarrow> string list \<Rightarrow> string list" where
  "matchRules r [] message options matched = matched"
| "matchRules r (rule # rest) message options matched =
     matchRules r rest message options
       (if matchRule rule message options then addChannels r (rule_channels rule) matched
        else matched)"

definition selectChannels :: "router \<Rightarrow> string \<Rightarrow> options \<Rightarrow> string list" where
  "selectChannels r message options =
     (case opt_channels options of
        Some chs \<Rightarrow> filter (has r) chs
      | None \<Rightarrow>
          (let m0 = matchRules r (rules r) message options [];
               m1 = (case defaultChannels (config r) of
                       Some ds \<Rightarrow> if m0 = [] then addChannels r ds m0 else m0
                     | None \<Rightarrow> m0);
               m2 = (case notifiers r of
                       [] \<Rightarrow> m1
                     | first # _ \<Rightarrow> if m1 = [] then Set_add (fst first) m1 else m1)
           in m2))"

subsection \<open>Sending to one channel\<close>

definition sendToChannel :: "adapter \<Rightarrow> router \<Rightarrow> string \<Rightarrow> string \<Rightarrow> options \<Rightarrow> string + string" where
  "sendToChannel ad r channel message options =
     (case map_of (notifiers r) channel of
        None \<Rightarrow> Inl (''Notifier '' @ channel @ '' not found'')
      | Some n \<Rightarrow>
          if \<not> n_enabled n then Inl (''Notifier '' @ channel @ '' is disabled'')
          else ad channel message options)"

subsection \<open>Rate limiting\<close>

text \<open>\<open>this.rateLimits.get(key) || { count: 0, resetAt: now + limit.window }\<close>\<close>

definition record_or_default :: "rate_limit \<Rightarrow> rl_record option \<Rightarrow> int \<Rightarrow> rl_record" where
  "record_or_default limit rec now =
     (case rec of Some x \<Rightarrow> x | None \<Rightarrow> \<lparr>rl_count = 0, resetAt = now + limit_window limit\<rparr>)"

definition exceeded :: "rate_limit \<Rightarrow> rl_record option \<Rightarrow> int \<Rightarrow> bool" where
  "exceeded limit rec now =
     (let record = record_or_default limit rec now
      in now < resetAt record \<and> limit_max limit \<le> rl_count record)"

definition channel_limit :: "router \<Rightarrow> string \<Rightarrow> rate_limit option" where
  "channel_limit r channel =
     (case map_of (notifiers r) channel of
        None \<Rightarrow> None
      | Some n \<Rightarrow> cfg_rateLimit (n_config n))"

text \<open>The key of a channel's record: \<open>`channel:${channel}`\<close>.\<close>

definition channel_key :: "string \<Rightarrow> string" where
  "channel_key channel = ''channel:'' @ channel"

fun channelsLimited :: "router \<Rightarrow> int \<Rightarrow> string list \<Rightarrow> bool" where
  "channelsLimited r now [] = False"
| "channelsLimited r now (channel # rest) =
     (case channel_limit r channel of
        Some limit \<Rightarrow>
          if exceeded limit (rateLimits r (channel_key channel)) now then True
          else channelsLimited r now rest
      | None \<Rightarrow> channelsLimited r now rest)"

definition isRateLimited :: "router \<Rightarrow> int \<Rightarrow> string list \<Rightarrow> bool" where
  "isRateLimited r now channels =
     (case globalRateLimit (config r) of
        Some limit \<Rightarrow>
          if exceeded limit (rateLimits r ''global'') now then True
          else channelsLimited r now channels
      | None \<Rightarrow> channelsLimited r now channels)"

definition bump :: "rate_limit \<Rightarrow> rl_record option \<Rightarrow> int \<Rightarrow> rl_record" where
  "bump limit rec now =
     (let record = record_or_default limit rec now
      in if resetAt record \<le> now then \<lparr>rl_count = 1, resetAt = now + limit_window limit\<rparr>
         else record\<lparr>rl_count := rl_count record + 1\<rparr>)"

fun updateChannels :: "router \<Rightarrow> int \<Rightarrow> string list \<Rightarrow> router" where
  "updateChannels r now [] = r"
| "updateChannels r now (channel # rest) =
     updateChannels
       (case channel_limit r channel of
          Some limit \<Rightarrow>
            r\<lparr>rateLimits := (rateLimits r)(channel_key channel \<mapsto>
                 bump limit (rateLimits r (channel_key channel)) now)\<rparr>
        | None \<Rightarrow> r)
       now rest"

definition updateRateLimits :: "router \<Rightarrow> int \<Rightarrow> string list \<Rightarrow> router" where
  "updateRateLimits r now channels =
     updateChannels
       (case globalRateLimit (config r) of
          Some limit \<Rightarrow>
            r\<lparr>rateLimits := (rateLimits r)(''global'' \<mapsto> bump limit (rateLimits r ''global'') now)\<rparr>
        | None \<Rightarrow> r)
       now channels"

subsection \<open>notify\<close>

definition is_fulfilled :: "string + string \<Rightarrow> bool" where
  "is_fulfilled x = (case x of Inl _ \<Rightarrow> False | Inr _ \<Rightarrow> True)"

definition is_rejected :: "string + string \<Rightarrow> bool" where
  "is_rejected x = (case x of Inl _ \<Rightarrow> True | Inr _ \<Rightarrow> False)"

text \<open>
  \<open>notify\<close> is an async function.  It runs without interruption up to
  \<open>await Promise.allSettled(...)\<close>: selection, the admission check, and either the
  push to the queue or the calls of \<open>sendToChannel\<close>, which start the sends
  (\<open>notify_start\<close>).  When the sends have settled it goes on with \<open>updateRateLimits\<close>, on
  the router as it is by then, and builds the result (\<open>notify_settle\<close>).  Other calls can
  run between the two steps.
\<close>

datatype started = Refused string | Sending "string list" "(string + string) list"

definition notify_start ::
  "adapter \<Rightarrow> int \<Rightarrow> string \<Rightarrow> options \<Rightarrow> router \<Rightarrow> started \<times> router" where
  "notify_start ad now message options r =
     (let channels = selectChannels r message options in
      if channels = [] then (Refused ''No channels available'', r)
      else if isRateLimited r now channels then
        (Refused ''Rate limited, message queued'',
         r\<lparr>messageQueue := messageQueue r @
              [\<lparr>q_message = message, q_options = options, q_channels = channels\<rparr>]\<rparr>)
      else
        (Sending channels
           (map (\<lambda>channel. sendToChannel ad r channel message options) channels),
         r))"

definition notify_settle ::
  "int \<Rightarrow> string list \<Rightarrow> (string + string) list \<Rightarrow> router \<Rightarrow> notify_result \<times> router" where
  "notify_settle now' channels results r =
     (let r' = updateRateLimits r now' channels;
          successful = length (filter is_fulfilled results);
          failed = length (filter is_rejected results)
      in (Delivery \<lparr>d_success = (0 < successful), d_successful = successful,
                     d_failed = failed, d_total = length channels, d_results = results\<rparr>,
          r'))"

text \<open>A call of \<open>notify\<close> during which nothing else touches the router.\<close>

definition notify ::
  "adapter \<Rightarrow> int \<Rightarrow> int \<Rightarrow> string \<Rightarrow> options \<Rightarrow> router \<Rightarrow> notify_result \<times> router" where
  "notify ad now now' message options r =
     (case notify_start ad now message options r of
        (Refused why, r1) \<Rightarrow> (Failure why, r1)
      | (Sending channels results, r1) \<Rightarrow> notify_settle now' channels results r1)"

text \<open>The result that \<open>notify\<close> builds from the outcomes of the sends, one for each channel.\<close>

definition outcome_of :: "(string + string) list \<Rightarrow> delivery" where
  "outcome_of results =
     \<lparr>d_success = (0 < length (filter is_fulfilled results)),
      d_successful = length (filter is_fulfilled results),
      d_failed = length (filter is_rejected results),
      d_total = length results, d_results = results\<rparr>"

subsection \<open>processQueue\<close>

text \<open>
  The drain loop runs until the queue is empty; while the head item is rate limited it
  sleeps for a second and looks again.  The loop is given fuel (one unit for each
  iteration), so an invocation that has not returned yet is \<open>None\<close>.  What the
  environment does during iteration \<open>i\<close> is \<open>env i\<close>: by how much the one-second timer
  is late, how long the awaited sends take, how long it takes to get back to the loop
  head, and what the adapters answer.  The loop's trace is the list of the \<open>notify\<close>
  calls it made, each with the queued item and the value \<open>notify\<close> returned.
  \<open>drainLoop\<close> is the loop on a router that nothing else uses meanwhile.
\<close>

record tick =
  t_late :: nat
  t_send :: nat
  t_resume :: nat
  t_adapter :: adapter

fun drainLoop ::
  "nat \<Rightarrow> (nat \<Rightarrow> tick) \<Rightarrow> nat \<Rightarrow> int \<Rightarrow> router \<Rightarrow> ((queued \<times> notify_result) list \<times> router) option" where
  "drainLoop 0 env i now r = (if messageQueue r = [] then Some ([], r) else None)"
| "drainLoop (Suc n) env i now r =
     (case messageQueue r of
        [] \<Rightarrow> Some ([], r)
      | q # _ \<Rightarrow>
          if isRateLimited r now (q_channels q) then
            drainLoop n env (Suc i) (now + 1000 + int (t_late (env i))) r
          else
            (let now' = now + int (t_send (env i));
                 sent = notify (t_adapter (env i)) now now' (q_message q)
                          ((q_options q)\<lparr>opt_channels := Some (q_channels q)\<rparr>) r;
                 r' = (snd sent)\<lparr>messageQueue := tl (messageQueue (snd sent))\<rparr>
             in map_option (\<lambda>(calls, rf). ((q, fst sent) # calls, rf))
                  (drainLoop n env (Suc i) (now' + int (t_resume (env i))) r')))"

definition processQueue ::
  "nat \<Rightarrow> (nat \<Rightarrow> tick) \<Rightarrow> int \<Rightarrow> router \<Rightarrow> ((queued \<times> notify_result) list \<times> router) option" where
  "processQueue n env now r =
     (if processing r \<or> messageQueue r = [] then Some ([], r)
      else map_option (\<lambda>(calls, rf). (calls, rf\<lparr>processing := False\<rparr>))
             (drainLoop n env 0 now (r\<lparr>processing := True\<rparr>)))"

text \<open>
  The drain loop with other callers.  While the loop sleeps, and while it awaits the sends
  of the head item, other calls of \<open>notify\<close> can run on the same router; \<open>others i\<close> are
  the calls that run during iteration \<open>i\<close>, each from its start to its end.
  \<open>drainLoop\<close> is this loop when there are no such calls.
\<close>

record call =
  c_adapter :: adapter
  c_now :: int
  c_settled :: int
  c_message :: string
  c_options :: options

definition run_calls :: "call list \<Rightarrow> router \<Rightarrow> router" where
  "run_calls calls r =
     foldl (\<lambda>r c. snd (notify (c_adapter c) (c_now c) (c_settled c) (c_message c) (c_options c) r))
       r calls"

fun drainLoop_among ::
  "nat \<Rightarrow> (nat \<Rightarrow> tick) \<Rightarrow> (nat \<Rightarrow> call list) \<Rightarrow> nat \<Rightarrow> int \<Rightarrow> router
     \<Rightarrow> ((queued \<times> notify_result) list \<times> router) option" where
  "drainLoop_among 0 env others i now r = (if messageQueue r = [] then Some ([], r) else None)"
| "drainLoop_among (Suc n) env others i now r =
     (case messageQueue r of
        [] \<Rightarrow> Some ([], r)
      | q # _ \<Rightarrow>
          if isRateLimited r now (q_channels q) then
            drainLoop_among n env others (Suc i) (now + 1000 + int (t_late (env i)))
              (run_calls (others i) r)
          else
            (let now' = now + int (t_send (env i));
                 started = notify_start (t_adapter (env i)) now (q_message q)
                             ((q_options q)\<lparr>opt_channels := Some (q_channels q)\<rparr>) r;
                 sent = (case fst started of
                           Refused why \<Rightarrow> (Failure why, snd started)
                         | Sending channels results \<Rightarrow>
                             notify_settle now' channels results
                               (run_calls (others i) (snd started)));
                 r' = (snd sent)\<lparr>messageQueue := tl (messageQueue (snd sent))\<rparr>
             in map_option (\<lambda>(calls, rf). ((q, fst sent) # calls, rf))
                  (drainLoop_among n env others (Suc i) (now' + int (t_resume (env i))) r')))"

definition processQueue_among ::
  "nat \<Rightarrow> (nat \<Rightarrow> tick) \<Rightarrow> (nat \<Rightarrow> call list) \<Rightarrow> int \<Rightarrow> router
     \<Rightarrow> ((queued \<times> notify_result) list \<times> router) option" where
  "processQueue_among n env others now r =
     (if processing r \<or> messageQueue r = [] then Some ([], r)
      else map_option (\<lambda>(calls, rf). (calls, rf\<lparr>processing := False\<rparr>))
             (drainLoop_among n env others 0 now (r\<lparr>processing := True\<rparr>)))"

text \<open>A limit that lets at least one message through in a window.\<close>

definition admits_one :: "rate_limit option \<Rightarrow> bool" where
  "admits_one limit = (case limit of None \<Rightarrow> True | Some l \<Rightarrow> 1 \<le> limit_max l)"

text \<open>
  A queued item that a drain can hand over: it names at least one channel, and every
  channel it names is registered, enabled and has a limit that admits a message.
\<close>

definition channel_ok :: "router \<Rightarrow> string \<Rightarrow> bool" where
  "channel_ok r ch =
     (case map_of (notifiers r) ch of
        None \<Rightarrow> False
      | Some n \<Rightarrow> n_enabled n \<and> admits_one (cfg_rateLimit (n_config n)))"

definition item_ok :: "router \<Rightarrow> queued \<Rightarrow> bool" where
  "item_ok r q = (q_channels q \<noteq> [] \<and> list_all (channel_ok r) (q_channels q))"

definition queue_ok :: "router \<Rightarrow> bool" where
  "queue_ok r =
     (admits_one (globalRateLimit (config r)) \<and> list_all (item_ok r) (messageQueue r))"

text \<open>
  What \<open>notify\<close> returns when it hands a queued item to the adapter of each of its
  channels: the adapters' answers, in the order of the channels.
\<close>

definition handed_over :: "adapter \<Rightarrow> queued \<Rightarrow> notify_result" where
  "handed_over ad q =
     Delivery (outcome_of
       (map (\<lambda>ch. ad ch (q_message q) ((q_options q)\<lparr>opt_channels := Some (q_channels q)\<rparr>))
          (q_channels q)))"

text \<open>The window of a key is over at time \<open>u\<close>, or the key has no record yet.\<close>

definition window_over :: "router \<Rightarrow> string \<Rightarrow> int \<Rightarrow> bool" where
  "window_over r key u = (case rateLimits r key of None \<Rightarrow> True | Some x \<Rightarrow> resetAt x \<le> u)"

section \<open>Notification intelligence (modules/notification-intelligence.js)\<close>

subsection \<open>Do not disturb\<close>

record time_range =
  range_start :: string
  range_end :: string

record schedule =
  workHours :: time_range
  sleepHours :: time_range

record dnd_mode =
  dnd_enabled :: bool
  dnd_schedule :: schedule
  exceptions :: "string list"
  autoDetect :: bool

text \<open>The \<open><\<close> of JavaScript on strings: lexicographic on the code units.\<close>

fun str_less :: "string \<Rightarrow> string \<Rightarrow> bool" where
  "str_less [] [] = False"
| "str_less [] (y # ys) = True"
| "str_less (x # xs) [] = False"
| "str_less (x # xs) (y # ys) =
     ((of_char x :: nat) < of_char y \<or> (x = y \<and> str_less xs ys))"

text \<open>\<open>String(n)\<close> for a natural number, and \<open>padStart(2, '0')\<close>.\<close>

fun String_of :: "nat \<Rightarrow> string" where
  "String_of n =
     (if n < 10 then [char_of (48 + n)]
      else String_of (n div 10) @ [char_of (48 + n mod 10)])"

declare String_of.simps [simp del]

definition padStart2 :: "string \<Rightarrow> string" where
  "padStart2 s = replicate (2 - length s) (CHR ''0'') @ s"

definition currentTime :: "nat \<Rightarrow> nat \<Rightarrow> string" where
  "currentTime hours minutes =
     padStart2 (String_of hours) @ '':'' @ padStart2 (String_of minutes)"

definition isInTimeRange :: "string \<Rightarrow> time_range \<Rightarrow> bool" where
  "isInTimeRange t rng =
     (if str_less (range_start rng) (range_end rng)
      then \<not> str_less t (range_start rng) \<and> str_less t (range_end rng)
      else \<not> str_less t (range_start rng) \<or> str_less t (range_end rng))"

definition workKeywords :: "string list" where
  "workKeywords = [''error'', ''critical'', ''build'', ''deploy'', ''test'', ''commit'']"

definition isWorkRelatedNotification :: "string \<Rightarrow> options \<Rightarrow> bool" where
  "isWorkRelatedNotification message options =
     list_ex (\<lambda>keyword. str_includes (toLowerCase message) keyword) workKeywords"

text \<open>\<open>hours\<close> and \<open>minutes\<close> are \<open>now.getHours()\<close> and \<open>now.getMinutes()\<close>.\<close>

definition shouldSuppressNotification :: "dnd_mode \<Rightarrow> nat \<Rightarrow> nat \<Rightarrow> string \<Rightarrow> options \<Rightarrow> bool" where
  "shouldSuppressNotification dnd hours minutes message options =
     (if \<not> dnd_enabled dnd then False
      else if truthy (opt_priority options) \<and> the (opt_priority options) \<in> set (exceptions dnd)
        then False
      else if isInTimeRange (currentTime hours minutes) (sleepHours (dnd_schedule dnd)) then True
      else if autoDetect dnd \<and>
              isInTimeRange (currentTime hours minutes) (workHours (dnd_schedule dnd)) \<and>
              \<not> isWorkRelatedNotification message options
        then True
      else False)"

subsection \<open>Aggregation\<close>

record pending =
  p_message :: string
  p_options :: options
  p_timestamp :: int







text \<open>
  A group is an array that always has a first element; it is kept as that element and
  the list of the others.
\<close>

type_synonym group = "pending \<times> pending list"

definition members :: "group \<Rightarrow> pending list" where
  "members g = fst g # snd g"



definition summaryText :: "nat \<Rightarrow> string \<Rightarrow> string" where
  "summaryText cnt firstMessage =
     [CHR 0xF0, CHR 0x9F, CHR 0x93, CHR 0xA6, CHR 0x20, CHR 0xE8, CHR 0x81, CHR 0x9A,
      CHR 0xE5, CHR 0x90, CHR 0x88, CHR 0xE9, CHR 0x80, CHR 0x9A, CHR 0xE7, CHR 0x9F,
      CHR 0xA5, CHR 0x20, CHR 0x28]
     @ String_of cnt
     @ [CHR 0xE6, CHR 0x9D, CHR 0xA1, CHR 0x29, CHR 0x0A, CHR 0x0A]
     @ firstMessage
     @ [CHR 0x0A, CHR 0x0A, CHR 0x2E, CHR 0x2E, CHR 0x2E, CHR 0x20, CHR 0xE4, CHR 0xBB,
        CHR 0xA5, CHR 0xE5, CHR 0x8F, CHR 0x8A, CHR 0x20]
     @ String_of (cnt - 1)
     @ [CHR 0x20, CHR 0xE6, CHR 0x9D, CHR 0xA1, CHR 0xE7, CHR 0xB1, CHR 0xBB, CHR 0xE4,
        CHR 0xBC, CHR 0xBC, CHR 0xE9, CHR 0x80, CHR 0x9A, CHR 0xE7, CHR 0x9F, CHR 0xA5]"

definition generateSummary :: "group \<Rightarrow> string \<times> options" where
  "generateSummary g =
     (if length (members g) = 1 then (p_message (fst g), p_options (fst g))
      else (summaryText (length (members g)) (p_message (fst g)),
            (p_options (fst g))\<lparr>opt_aggregated := Some True,
                                 opt_count := Some (length (members g))\<rparr>))"

text \<open>
  \<open>sendNotification\<close> goes through \<open>this.notify\<close> to the core's \<open>notify\<close>, whose promise
  is rejected on a request error and on any reply other than 200.  The \<open>sender\<close> stands for
  it: \<open>Inl\<close> the error of a rejected send, \<open>Inr\<close> the reply.

  The loop of \<open>flushAggregatedNotifications\<close> awaits each send.  The first send that is
  rejected ends the loop and the flush with its error: the groups after it are not sent
  and the statement that empties the buffer is not reached, while the timer was cleared
  before the loop.  The result is the list of the notifications the sender took, the
  error if there was one, and the state.  The groups are formed before the first send; a
  notification that is buffered while the loop awaits a send is in none of them, and no
  such arrival is part of this function.
\<close>

type_synonym sender = "string \<Rightarrow> options \<Rightarrow> string + string"





text \<open>The sender takes the notification of a group.\<close>

definition accepted :: "sender \<Rightarrow> group \<Rightarrow> bool" where
  "accepted send g = is_fulfilled (send (fst (generateSummary g)) (snd (generateSummary g)))"

section \<open>Concrete configurations\<close>

text \<open>Routers, schedules and buffers on which the theorems below are run.\<close>


definition plain :: options where
  "plain = \<lparr>opt_type = None, opt_priority = None, opt_module = None, opt_channels = None,
            opt_aggregated = None, opt_count = None\<rparr>"

definition demo_config :: config where
  "demo_config =
     \<lparr>globalRateLimit = None, defaultChannels = None, notificationRules = None,
      telegram = Some \<lparr>cfg_enabled = None,
                       cfg_rateLimit = Some \<lparr>limit_max = 3, limit_window = 60000\<rparr>\<rparr>,
      discord = Some \<lparr>cfg_enabled = Some False, cfg_rateLimit = None\<rparr>,
      slack = Some \<lparr>cfg_enabled = Some True, cfg_rateLimit = None\<rparr>,
      email = None\<rparr>"

definition demo_router :: router where
  "demo_router = init (NotificationRouter demo_config)"

definition ok_adapter :: adapter where
  "ok_adapter channel message options = Inr ''ok''"

definition flaky_adapter :: adapter where
  "flaky_adapter channel message options =
     (if channel = ''telegram'' then Inl ''timeout'' else Inr ''ok'')"

definition calm :: "nat \<Rightarrow> tick" where
  "calm i = \<lparr>t_late = 0, t_send = 0, t_resume = 0, t_adapter = ok_adapter\<rparr>"

definition full_router :: router where
  "full_router =
     demo_router\<lparr>rateLimits := [''channel:telegram'' \<mapsto> \<lparr>rl_count = 3, resetAt = 60000\<rparr>]\<rparr>"

definition fallback_config :: config where
  "fallback_config =
     \<lparr>globalRateLimit = None, defaultChannels = Some [''email''],
      notificationRules =
        Some [\<lparr>rule_type = Some ''error'', rule_priority = None,
               rule_keywords = Some [''deploy''], rule_modules = None,
               rule_channels = [''discord'']\<rparr>],
      telegram = Some \<lparr>cfg_enabled = Some False, cfg_rateLimit = None\<rparr>,
      discord = Some \<lparr>cfg_enabled = Some True, cfg_rateLimit = None\<rparr>,
      slack = None, email = None\<rparr>"

definition fallback_router :: router where
  "fallback_router = init (NotificationRouter fallback_config)"

definition zero_window_config :: config where
  "zero_window_config =
     \<lparr>globalRateLimit = None, defaultChannels = None, notificationRules = None,
      telegram = Some \<lparr>cfg_enabled = None,
                       cfg_rateLimit = Some \<lparr>limit_max = 3, limit_window = 0\<rparr>\<rparr>,
      discord = None, slack = None, email = None\<rparr>"

definition zero_window_router :: router where
  "zero_window_router = init (NotificationRouter zero_window_config)"

definition to_telegram :: options where
  "to_telegram = plain\<lparr>opt_channels := Some [''telegram'']\<rparr>"

definition demo_dnd :: dnd_mode where
  "demo_dnd =
     \<lparr>dnd_enabled = True,
      dnd_schedule = \<lparr>workHours = \<lparr>range_start = ''09:00'', range_end = ''18:00''\<rparr>,
                      sleepHours = \<lparr>range_start = ''23:00'', range_end = ''07:00''\<rparr>\<rparr>,
      exceptions = [''critical'', ''error''], autoDetect = True\<rparr>"





definition muted_config :: config where
  "muted_config =
     \<lparr>globalRateLimit = None, defaultChannels = None, notificationRules = None,
      telegram = None,
      discord = Some \<lparr>cfg_enabled = Some False,
                      cfg_rateLimit = Some \<lparr>limit_max = 3, limit_window = 60000\<rparr>\<rparr>,
      slack = None, email = None\<rparr>"

definition muted_router :: router where
  "muted_router = init (NotificationRouter muted_config)"

definition to_discord :: options where
  "to_discord = plain\<lparr>opt_channels := Some [''discord'']\<rparr>"

definition waiting_router :: router where
  "waiting_router =
     full_router\<lparr>messageQueue :=
       [\<lparr>q_message = ''first'', q_options = to_telegram, q_channels = [''telegram'']\<rparr>,
        \<lparr>q_message = ''second'', q_options = to_telegram, q_channels = [''telegram'']\<rparr>]\<rparr>"

definition muted_waiting :: router where
  "muted_waiting =
     muted_router\<lparr>rateLimits := [''channel:discord'' \<mapsto> \<lparr>rl_count = 3, resetAt = 60000\<rparr>],
                  messageQueue :=
                    [\<lparr>q_message = ''backup failed'', q_options = to_discord,
                      q_channels = [''discord'']\<rparr>]\<rparr>"

definition tight_config :: config where
  "tight_config =
     \<lparr>globalRateLimit = None, defaultChannels = None, notificationRules = None,
      telegram = Some \<lparr>cfg_enabled = None,
                       cfg_rateLimit = Some \<lparr>limit_max = 1, limit_window = 1000\<rparr>\<rparr>,
      discord = None, slack = None, email = None\<rparr>"

definition tight_router :: router where
  "tight_router =
     (init (NotificationRouter tight_config))
       \<lparr>rateLimits := [''channel:telegram'' \<mapsto> \<lparr>rl_count = 1, resetAt = 500\<rparr>],
        messageQueue :=
          [\<lparr>q_message = ''first'', q_options = to_telegram, q_channels = [''telegram'']\<rparr>]\<rparr>"

text \<open>Another caller that sends one message to telegram in the middle of every second.\<close>

definition pushy :: "nat \<Rightarrow> call list" where
  "pushy i =
     [\<lparr>c_adapter = ok_adapter, c_now = 1000 * int i + 500, c_settled = 1000 * int i + 500,
       c_message = ''other'', c_options = to_telegram\<rparr>]"

definition quiet :: "nat \<Rightarrow> call list" where
  "quiet i = []"

section \<open>A call of notify that nothing interleaves with\<close>

lemma notify_unfold:
  "notify ad now now' message options r =
     (let channels = selectChannels r message options in
      if channels = [] then (Failure ''No channels available'', r)
      else if isRateLimited r now channels then
        (Failure ''Rate limited, message queued'',
         r\<lparr>messageQueue := messageQueue r @
              [\<lparr>q_message = message, q_options = options, q_channels = channels\<rparr>]\<rparr>)
      else
        (let results = map (\<lambda>channel. sendToChannel ad r channel message options) channels;
             r' = updateRateLimits r now' channels;
             successful = length (filter is_fulfilled results);
             failed = length (filter is_rejected results)
         in (Delivery \<lparr>d_success = (0 < successful), d_successful = successful,
                        d_failed = failed, d_total = length channels, d_results = results\<rparr>,
             r')))"
  by (simp add: notify_def notify_start_def notify_settle_def Let_def)

section \<open>Facts about the concrete configurations\<close>

lemma demo_notifiers:
  "notifiers demo_router =
     [(''telegram'',
       \<lparr>n_config = \<lparr>cfg_enabled = None,
                     cfg_rateLimit = Some \<lparr>limit_max = 3, limit_window = 60000\<rparr>\<rparr>,
        n_name = ''telegram'', n_enabled = True\<rparr>),
      (''discord'',
       \<lparr>n_config = \<lparr>cfg_enabled = Some False, cfg_rateLimit = None\<rparr>,
        n_name = ''discord'', n_enabled = False\<rparr>),
      (''slack'',
       \<lparr>n_config = \<lparr>cfg_enabled = Some True, cfg_rateLimit = None\<rparr>,
        n_name = ''slack'', n_enabled = True\<rparr>)]"
  by (simp add: demo_router_def init_def NotificationRouter_def demo_config_def
      load_notifier_def new_notifier_def)

lemma demo_static:
  "config demo_router = demo_config" "rules demo_router = []" "messageQueue demo_router = []"
  "rateLimits demo_router = Map.empty" "processing demo_router = False"
  by (simp_all add: demo_router_def init_def NotificationRouter_def demo_config_def)

lemma full_static:
  "config full_router = demo_config" "rules full_router = []" "messageQueue full_router = []"
  "notifiers full_router = notifiers demo_router" "processing full_router = False"
  "rateLimits full_router = [''channel:telegram'' \<mapsto> \<lparr>rl_count = 3, resetAt = 60000\<rparr>]"
  by (simp_all add: full_router_def demo_static)

lemma fallback_notifiers:
  "notifiers fallback_router =
     [(''telegram'',
       \<lparr>n_config = \<lparr>cfg_enabled = Some False, cfg_rateLimit = None\<rparr>,
        n_name = ''telegram'', n_enabled = False\<rparr>),
      (''discord'',
       \<lparr>n_config = \<lparr>cfg_enabled = Some True, cfg_rateLimit = None\<rparr>,
        n_name = ''discord'', n_enabled = True\<rparr>)]"
  by (simp add: fallback_router_def init_def NotificationRouter_def fallback_config_def
      load_notifier_def new_notifier_def)

lemma fallback_static:
  "config fallback_router = fallback_config"
  "rules fallback_router =
     [\<lparr>rule_type = Some ''error'', rule_priority = None, rule_keywords = Some [''deploy''],
       rule_modules = None, rule_channels = [''discord'']\<rparr>]"
  by (simp_all add: fallback_router_def init_def NotificationRouter_def fallback_config_def)

lemma to_telegram_selected:
  "selectChannels demo_router message to_telegram = [''telegram'']"
  "selectChannels full_router message to_telegram = [''telegram'']"
  by (simp_all add: selectChannels_def to_telegram_def has_def full_static demo_notifiers)


section \<open>The admission check does not touch the windows\<close>



section \<open>One channel's failure does not stop the others\<close>

text \<open>
  Whatever the adapters do, \<open>notify\<close> returns a value: either one of its two refusals, or a
  result that holds one outcome for every selected channel.
\<close>

lemma notify_returns:
  "(\<exists>why. fst (notify ad now now' message options r) = Failure why) \<or>
   (\<exists>d. fst (notify ad now now' message options r) = Delivery d \<and>
        d_total d = length (selectChannels r message options) \<and>
        length (d_results d) = d_total d)"
  by (simp add: notify_unfold Let_def)

text \<open>
  C2.  When a notification goes to the two channels A and B, the send to A throws and the
  send to B succeeds, \<open>notify\<close> returns a result with one success, one failure and a total
  of two; the thrown error is kept as the outcome of A and the send to B is made all the
  same.
\<close>

theorem partial_failure_isolated:
  assumes "selectChannels r message options = [A, B]"
    and "\<not> isRateLimited r now [A, B]"
    and "sendToChannel ad r A message options = Inl e"
    and "sendToChannel ad r B message options = Inr v"
  shows "fst (notify ad now now' message options r) =
           Delivery \<lparr>d_success = True, d_successful = 1, d_failed = 1, d_total = 2,
                     d_results = [Inl e, Inr v]\<rparr>"
  using assms by (simp add: notify_unfold Let_def is_fulfilled_def is_rejected_def)

theorem partial_failure_isolated_witness:
  "fst (notify flaky_adapter 0 5 ''disk full''
          (plain\<lparr>opt_channels := Some [''telegram'', ''slack'']\<rparr>) demo_router) =
     Delivery \<lparr>d_success = True, d_successful = 1, d_failed = 1, d_total = 2,
               d_results = [Inl ''timeout'', Inr ''ok'']\<rparr>"
proof -
  let ?o = "plain\<lparr>opt_channels := Some [''telegram'', ''slack'']\<rparr>"
  have s: "selectChannels demo_router ''disk full'' ?o = [''telegram'', ''slack'']"
    by (simp add: selectChannels_def has_def demo_notifiers)
  have l: "\<not> isRateLimited demo_router 0 [''telegram'', ''slack'']"
    by (simp add: isRateLimited_def demo_static demo_config_def channel_limit_def
        demo_notifiers exceeded_def record_or_default_def)
  have a: "sendToChannel flaky_adapter demo_router ''telegram'' ''disk full'' ?o = Inl ''timeout''"
    by (simp add: sendToChannel_def demo_notifiers flaky_adapter_def)
  have b: "sendToChannel flaky_adapter demo_router ''slack'' ''disk full'' ?o = Inr ''ok''"
    by (simp add: sendToChannel_def demo_notifiers flaky_adapter_def)
  show ?thesis
    by (rule partial_failure_isolated [OF s l a b])
qed

section \<open>Channel selection\<close>

text \<open>
  C3, as the claim states it, fails: the explicit list is filtered by
  \<open>this.notifiers.has\<close>, and a notifier whose configuration says \<open>enabled: false\<close> is
  registered all the same.  Here discord is disabled and is selected.
\<close>

theorem explicit_channels_counterexample:
  "selectChannels demo_router ''disk full''
       (plain\<lparr>opt_channels := Some [''discord'', ''email'', ''slack'']\<rparr>)
     = [''discord'', ''slack''] \<and>
   map_option n_enabled (map_of (notifiers demo_router) ''discord'') = Some False"
  by (simp add: selectChannels_def has_def demo_notifiers)

text \<open>
  C3, amended.  With an explicit channels list the selection is that list, in its order,
  restricted to the registered channels; the rules are not consulted.  A selected channel
  that is registered but disabled is refused by \<open>sendToChannel\<close>, which throws
  "Notifier ... is disabled".
\<close>

theorem explicit_channels_registered:
  assumes "opt_channels options = Some chs"
  shows "selectChannels r message options = filter (has r) chs \<and>
         (\<forall>ch \<in> set (selectChannels r message options). \<forall>n.
             map_of (notifiers r) ch = Some n \<and> \<not> n_enabled n \<longrightarrow>
             sendToChannel ad r ch message options =
               Inl (''Notifier '' @ ch @ '' is disabled''))"
  using assms by (auto simp: selectChannels_def sendToChannel_def)

theorem explicit_channels_registered_witness:
  "selectChannels demo_router ''disk full''
       (plain\<lparr>opt_channels := Some [''discord'', ''email'', ''slack'']\<rparr>)
     = [''discord'', ''slack''] \<and>
   sendToChannel ok_adapter demo_router ''discord'' ''disk full''
       (plain\<lparr>opt_channels := Some [''discord'', ''email'', ''slack'']\<rparr>)
     = Inl ''Notifier discord is disabled''"
  using explicit_channels_registered
    [of "plain\<lparr>opt_channels := Some [''discord'', ''email'', ''slack'']\<rparr>"
      "[''discord'', ''email'', ''slack'']" demo_router "''disk full''" ok_adapter]
  by (simp add: has_def demo_notifiers)

lemma set_addChannels: "set (addChannels r chs m) = set m \<union> {ch \<in> set chs. has r ch}"
  by (induction chs arbitrary: m) (auto simp: Set_add_def)

lemma distinct_addChannels: "distinct m \<Longrightarrow> distinct (addChannels r chs m)"
  by (induction chs arbitrary: m) (auto simp: Set_add_def)

lemma matchRules_none:
  "list_all (\<lambda>rule. \<not> matchRule rule message options) rs \<Longrightarrow>
   matchRules r rs message options m = m"
  by (induction rs arbitrary: m) auto

lemma init_order:
  "map fst (notifiers (init (NotificationRouter cfg))) =
     (case telegram cfg of None \<Rightarrow> [] | Some c \<Rightarrow> [''telegram'']) @
     (case discord cfg of None \<Rightarrow> [] | Some c \<Rightarrow> [''discord'']) @
     (case slack cfg of None \<Rightarrow> [] | Some c \<Rightarrow> [''slack'']) @
     (case email cfg of None \<Rightarrow> [] | Some c \<Rightarrow> [''email''])"
  by (simp add: init_def NotificationRouter_def load_notifier_def split: option.splits)

lemma deploy_rule_unmatched:
  "\<not> matchRule
       \<lparr>rule_type = Some ''error'', rule_priority = None, rule_keywords = Some [''deploy''],
        rule_modules = None, rule_channels = [''discord'']\<rparr> ''disk full'' plain"
  by (simp add: matchRule_def truthy_def plain_def)

text \<open>
  C7, as the claim states it, fails: the last fallback is the first registered notifier,
  \<open>this.notifiers.keys().next().value\<close>, enabled or not.  Here no rule matches, the
  default channel is not registered, telegram is disabled and discord is enabled; the
  selection is telegram.
\<close>

theorem fallback_counterexample:
  "selectChannels fallback_router ''disk full'' plain = [''telegram''] \<and>
   map_option n_enabled (map_of (notifiers fallback_router) ''telegram'') = Some False \<and>
   map_option n_enabled (map_of (notifiers fallback_router) ''discord'') = Some True"
proof -
  have none: "opt_channels plain = None"
    by (simp add: plain_def)
  show ?thesis
    by (simp add: selectChannels_def none has_def fallback_notifiers fallback_static
        fallback_config_def deploy_rule_unmatched Set_add_def)
qed

text \<open>
  C7, amended.  For a notification with no explicit channels that no rule matches, the
  selection is the configured default channels that are registered (each once); if there
  is none, it is the first registered notifier, whether or not it is enabled; \<open>init\<close>
  registers the configured notifiers in the order telegram, discord, slack, email.  So the
  selection is empty only when no notifier is registered.
\<close>

theorem fallback_first_registered:
  assumes "opt_channels options = None"
    and "list_all (\<lambda>rule. \<not> matchRule rule message options) (rules r)"
  shows "selectChannels r message options =
           (let ds = addChannels r
                       (case defaultChannels (config r) of None \<Rightarrow> [] | Some d \<Rightarrow> d) []
            in if ds \<noteq> [] then ds
               else case notifiers r of [] \<Rightarrow> [] | first # _ \<Rightarrow> [fst first]) \<and>
         set (addChannels r chs []) = {ch \<in> set chs. has r ch} \<and>
         distinct (addChannels r chs []) \<and>
         (selectChannels r message options = [] \<longleftrightarrow> notifiers r = []) \<and>
         map fst (notifiers (init (NotificationRouter cfg))) =
           (case telegram cfg of None \<Rightarrow> [] | Some c \<Rightarrow> [''telegram'']) @
           (case discord cfg of None \<Rightarrow> [] | Some c \<Rightarrow> [''discord'']) @
           (case slack cfg of None \<Rightarrow> [] | Some c \<Rightarrow> [''slack'']) @
           (case email cfg of None \<Rightarrow> [] | Some c \<Rightarrow> [''email''])"
proof -
  have m0: "matchRules r (rules r) message options [] = []"
    using assms(2) by (rule matchRules_none)
  have sel: "selectChannels r message options =
           (let ds = addChannels r
                       (case defaultChannels (config r) of None \<Rightarrow> [] | Some d \<Rightarrow> d) []
            in if ds \<noteq> [] then ds
               else case notifiers r of [] \<Rightarrow> [] | first # _ \<Rightarrow> [fst first])"
    using assms(1) m0
    by (simp add: selectChannels_def Let_def Set_add_def split: option.splits list.splits)
  have nonempty: "selectChannels r message options = [] \<longleftrightarrow> notifiers r = []"
  proof
    assume none: "notifiers r = []"
    then have "\<And>ch. \<not> has r ch" by (simp add: has_def)
    then have "\<And>ds. set (addChannels r ds []) = {}" by (simp add: set_addChannels)
    then show "selectChannels r message options = []"
      using none by (simp add: sel Let_def)
  next
    assume "selectChannels r message options = []"
    then show "notifiers r = []"
      by (simp add: sel Let_def split: if_splits list.splits)
  qed
  show ?thesis
    using sel nonempty by (simp add: set_addChannels distinct_addChannels init_order)
qed

theorem fallback_first_registered_witness:
  "selectChannels fallback_router ''disk full'' plain = [''telegram''] \<and>
   addChannels fallback_router [''email''] [] = []"
proof -
  have a: "opt_channels plain = None" by (simp add: plain_def)
  have b: "list_all (\<lambda>rule. \<not> matchRule rule ''disk full'' plain) (rules fallback_router)"
    by (simp add: fallback_static deploy_rule_unmatched)
  show ?thesis
    using fallback_first_registered [OF a b, of "[''email'']"]
    by (simp add: fallback_static fallback_config_def has_def fallback_notifiers)
qed

section \<open>Do not disturb\<close>

lemma two_oclock: "currentTime 2 0 = ''02:00''"
  by code_simp

text \<open>
  C6.  With do-not-disturb enabled, sleep hours from 23:00 to 07:00 and the clock at 02:00,
  a notification whose priority is in the exceptions list is not suppressed, and a
  notification of priority "low", which is not in the list, is suppressed.
\<close>

theorem dnd_exception_bypass:
  assumes "dnd_enabled dnd"
    and "sleepHours (dnd_schedule dnd) = \<lparr>range_start = ''23:00'', range_end = ''07:00''\<rparr>"
  shows "(opt_priority oa = Some p \<and> p \<noteq> [] \<and> p \<in> set (exceptions dnd) \<longrightarrow>
            \<not> shouldSuppressNotification dnd 2 0 ma oa) \<and>
         (opt_priority ob = Some ''low'' \<and> ''low'' \<notin> set (exceptions dnd) \<longrightarrow>
            shouldSuppressNotification dnd 2 0 mb ob)"
proof -
  have night: "isInTimeRange ''02:00'' (sleepHours (dnd_schedule dnd))"
    by (simp add: assms(2) isInTimeRange_def)
  show ?thesis
    using assms(1) night
    by (simp add: shouldSuppressNotification_def truthy_def two_oclock)
qed

theorem dnd_exception_bypass_witness:
  "\<not> shouldSuppressNotification demo_dnd 2 0 ''backup finished'' (plain\<lparr>opt_priority := Some ''critical''\<rparr>) \<and>
   shouldSuppressNotification demo_dnd 2 0 ''backup finished'' (plain\<lparr>opt_priority := Some ''low''\<rparr>)"
proof -
  have a: "dnd_enabled demo_dnd" by (simp add: demo_dnd_def)
  have b: "sleepHours (dnd_schedule demo_dnd) = \<lparr>range_start = ''23:00'', range_end = ''07:00''\<rparr>"
    by (simp add: demo_dnd_def)
  show ?thesis
    using dnd_exception_bypass [OF a b, where oa = "plain\<lparr>opt_priority := Some ''critical''\<rparr>"
        and p = "''critical''" and ob = "plain\<lparr>opt_priority := Some ''low''\<rparr>"
        and ma = "''backup finished''" and mb = "''backup finished''"]
    by (simp add: demo_dnd_def)
qed

section \<open>Aggregation\<close>
















section \<open>A rate limit whose window is not positive\<close>

lemma map_of_Map_set: "map_of (Map_set k v xs) = (map_of xs)(k \<mapsto> v)"
  by (induction xs) (auto simp: fun_eq_iff)

lemma init_registers_telegram:
  "telegram cfg = Some nc \<Longrightarrow>
   map_of (notifiers (init (NotificationRouter cfg))) ''telegram'' = Some (new_notifier ''telegram'' nc)"
  by (simp add: init_def NotificationRouter_def load_notifier_def map_of_Map_set split: option.splits)

lemma init_keeps_config: "config (init (NotificationRouter cfg)) = cfg"
  "rateLimits (init (NotificationRouter cfg)) = Map.empty"
  by (simp_all add: init_def NotificationRouter_def)

lemma zero_window_notifiers:
  "notifiers zero_window_router =
     [(''telegram'',
       \<lparr>n_config = \<lparr>cfg_enabled = None,
                     cfg_rateLimit = Some \<lparr>limit_max = 3, limit_window = 0\<rparr>\<rparr>,
        n_name = ''telegram'', n_enabled = True\<rparr>)]"
  by (simp add: zero_window_router_def init_def NotificationRouter_def zero_window_config_def
      load_notifier_def new_notifier_def)

lemma zero_window_static:
  "config zero_window_router = zero_window_config" "rules zero_window_router = []"
  "messageQueue zero_window_router = []" "rateLimits zero_window_router = Map.empty"
  by (simp_all add: zero_window_router_def init_def NotificationRouter_def zero_window_config_def)

lemma zero_window_notify:
  assumes "notifiers r = notifiers zero_window_router" and "config r = zero_window_config"
    and "rateLimits r ''channel:telegram'' = None \<or>
         (\<exists>x. rateLimits r ''channel:telegram'' = Some x \<and> resetAt x \<le> now)"
  shows "notify ok_adapter now now' message to_telegram r =
           (Delivery \<lparr>d_success = True, d_successful = 1, d_failed = 0, d_total = 1,
                      d_results = [Inr ''ok'']\<rparr>,
            r\<lparr>rateLimits := (rateLimits r)(''channel:telegram'' \<mapsto>
                 bump \<lparr>limit_max = 3, limit_window = 0\<rparr> (rateLimits r ''channel:telegram'') now')\<rparr>)"
  using assms
  by (auto simp: notify_unfold selectChannels_def to_telegram_def plain_def has_def zero_window_notifiers
      isRateLimited_def zero_window_config_def channel_limit_def exceeded_def record_or_default_def
      sendToChannel_def ok_adapter_def is_fulfilled_def is_rejected_def updateRateLimits_def Let_def
      channel_key_def)

text \<open>
  C9, as the claim states it, fails: neither the constructor nor \<open>init\<close> looks at the
  rate limits.  A configuration whose telegram limit is three messages in a window of
  0 ms is taken as it is, and the router then sends a fourth message within seven
  milliseconds of the first.
\<close>

theorem zero_window_counterexample:
  "channel_limit zero_window_router ''telegram'' = Some \<lparr>limit_max = 3, limit_window = 0\<rparr> \<and>
   (let r1 = snd (notify ok_adapter 0 1 ''a'' to_telegram zero_window_router);
        r2 = snd (notify ok_adapter 2 3 ''b'' to_telegram r1);
        r3 = snd (notify ok_adapter 4 5 ''c'' to_telegram r2)
    in map fst [notify ok_adapter 0 1 ''a'' to_telegram zero_window_router,
                notify ok_adapter 2 3 ''b'' to_telegram r1,
                notify ok_adapter 4 5 ''c'' to_telegram r2,
                notify ok_adapter 6 7 ''d'' to_telegram r3]) =
   replicate 4 (Delivery \<lparr>d_success = True, d_successful = 1, d_failed = 0, d_total = 1,
                  d_results = [Inr ''ok'']\<rparr>)"
  by (simp add: channel_limit_def zero_window_notifiers zero_window_notify zero_window_static
      bump_def record_or_default_def Let_def numeral_eq_Suc)

text \<open>
  C9, amended.  A rate-limit configuration whose window is zero or negative is not
  rejected: the constructor and \<open>init\<close> register the notifier with that limit unchanged.
  At run time such a limit never blocks: not on the fresh router, and, as long as the
  clock does not go backwards, not after any number of sends, since every record it
  leaves has a reset instant that is already over.
\<close>

theorem nonpositive_window_accepted:
  assumes "telegram cfg = Some nc" and "cfg_rateLimit nc = Some limit"
    and "limit_window limit \<le> 0" and "globalRateLimit cfg = None"
  shows "channel_limit (init (NotificationRouter cfg)) ''telegram'' = Some limit \<and>
         \<not> isRateLimited (init (NotificationRouter cfg)) now [''telegram''] \<and>
         (globalRateLimit (config r) = None \<and> channel_limit r ch = Some limit \<and>
          window_over r (channel_key ch) u \<and> u \<le> u' \<and> u' \<le> t \<longrightarrow>
            \<not> isRateLimited r u' [ch] \<and>
            window_over (updateRateLimits r u' [ch]) (channel_key ch) u' \<and>
            \<not> isRateLimited (updateRateLimits r u' [ch]) t [ch])"
proof -
  have accepted: "channel_limit (init (NotificationRouter cfg)) ''telegram'' = Some limit"
    using assms(1,2) by (simp add: channel_limit_def init_registers_telegram new_notifier_def)
  have fresh: "\<not> isRateLimited (init (NotificationRouter cfg)) now [''telegram'']"
    using assms(3,4) accepted
    by (simp add: isRateLimited_def init_keeps_config exceeded_def record_or_default_def)
  have later: "globalRateLimit (config r) = None \<and> channel_limit r ch = Some limit \<and>
          window_over r (channel_key ch) u \<and> u \<le> u' \<and> u' \<le> t \<longrightarrow>
            \<not> isRateLimited r u' [ch] \<and>
            window_over (updateRateLimits r u' [ch]) (channel_key ch) u' \<and>
            \<not> isRateLimited (updateRateLimits r u' [ch]) t [ch]"
    using assms(3)
    by (auto simp: isRateLimited_def updateRateLimits_def channel_limit_def window_over_def
        exceeded_def bump_def record_or_default_def Let_def split: option.splits)
  from accepted fresh later show ?thesis by blast
qed

theorem nonpositive_window_accepted_witness:
  "channel_limit zero_window_router ''telegram'' = Some \<lparr>limit_max = 3, limit_window = 0\<rparr> \<and>
   \<not> isRateLimited zero_window_router 0 [''telegram''] \<and>
   \<not> isRateLimited (updateRateLimits zero_window_router 5 [''telegram'']) 5 [''telegram'']"
proof -
  have a: "telegram zero_window_config =
      Some \<lparr>cfg_enabled = None, cfg_rateLimit = Some \<lparr>limit_max = 3, limit_window = 0\<rparr>\<rparr>"
    by (simp add: zero_window_config_def)
  have g: "globalRateLimit zero_window_config = None"
    by (simp add: zero_window_config_def)
  show ?thesis
    using nonpositive_window_accepted [OF a _ _ g, where limit = "\<lparr>limit_max = 3, limit_window = 0\<rparr>"
        and now = 0 and r = zero_window_router and ch = "''telegram''" and u = 0 and u' = 5 and t = 5]
    by (simp add: zero_window_router_def [symmetric] zero_window_static window_over_def g)
qed

section \<open>Three messages in a window, the fourth is queued\<close>

text \<open>
  What the rate-limit bookkeeping leaves alone, and what selection and the admission
  check depend on.
\<close>

lemma updateChannels_static:
  "config (updateChannels r now chs) = config r \<and>
   notifiers (updateChannels r now chs) = notifiers r \<and>
   rules (updateChannels r now chs) = rules r \<and>
   messageQueue (updateChannels r now chs) = messageQueue r \<and>
   processing (updateChannels r now chs) = processing r"
  by (induction chs arbitrary: r) (auto simp: channel_limit_def split: option.splits)

lemma updateRateLimits_static:
  "config (updateRateLimits r now chs) = config r"
  "notifiers (updateRateLimits r now chs) = notifiers r"
  "rules (updateRateLimits r now chs) = rules r"
  "messageQueue (updateRateLimits r now chs) = messageQueue r"
  "processing (updateRateLimits r now chs) = processing r"
  by (simp_all add: updateRateLimits_def updateChannels_static split: option.splits)

lemma has_same: "notifiers r' = notifiers r \<Longrightarrow> has r' ch = has r ch"
  by (simp add: has_def)

lemma has_same_fun: "notifiers r' = notifiers r \<Longrightarrow> has r' = has r"
  by (simp add: fun_eq_iff has_def)

lemma queue_ok_same:
  "notifiers r' = notifiers r \<Longrightarrow> config r' = config r \<Longrightarrow>
   messageQueue r' = messageQueue r \<Longrightarrow> queue_ok r' = queue_ok r"
proof -
  assume same: "notifiers r' = notifiers r" "config r' = config r"
    "messageQueue r' = messageQueue r"
  have chan: "channel_ok r' = channel_ok r"
  proof (rule ext)
    fix ch show "channel_ok r' ch = channel_ok r ch"
      using same(1) by (simp add: channel_ok_def)
  qed
  have "item_ok r' = item_ok r"
  proof (rule ext)
    fix q show "item_ok r' q = item_ok r q"
      by (simp add: item_ok_def chan)
  qed
  then show ?thesis
    using same by (simp add: queue_ok_def)
qed

lemma addChannels_same:
  "notifiers r' = notifiers r \<Longrightarrow> addChannels r' chs m = addChannels r chs m"
  by (induction chs arbitrary: m) (simp_all add: has_same [of r' r])

lemma matchRules_same:
  "notifiers r' = notifiers r \<Longrightarrow>
   matchRules r' rs message options m = matchRules r rs message options m"
  by (induction rs arbitrary: m) (simp_all add: addChannels_same [of r' r])

lemma selectChannels_same:
  assumes "notifiers r' = notifiers r" and "rules r' = rules r" and "config r' = config r"
  shows "selectChannels r' message options = selectChannels r message options"
proof -
  have "filter (has r') = filter (has r)"
    using has_same [OF assms(1)] by (simp add: fun_eq_iff cong: filter_cong)
  then show ?thesis
    using assms
    by (simp add: selectChannels_def addChannels_same [OF assms(1)] matchRules_same [OF assms(1)]
        Let_def split: option.splits list.splits)
qed

lemma channel_limit_same: "notifiers r' = notifiers r \<Longrightarrow> channel_limit r' ch = channel_limit r ch"
  by (simp add: channel_limit_def)

lemma channelsLimited_same:
  "notifiers r' = notifiers r \<Longrightarrow> rateLimits r' = rateLimits r \<Longrightarrow>
   channelsLimited r' now chs = channelsLimited r now chs"
  by (induction chs) (simp_all add: channel_limit_same [of r' r] split: option.splits)

lemma isRateLimited_same:
  assumes "notifiers r' = notifiers r" and "rateLimits r' = rateLimits r" and "config r' = config r"
  shows "isRateLimited r' now chs = isRateLimited r now chs"
  using assms
  by (simp add: isRateLimited_def channelsLimited_same [OF assms(1,2)] split: option.splits)

lemma sendToChannel_same:
  "notifiers r' = notifiers r \<Longrightarrow>
   sendToChannel ad r' ch message options = sendToChannel ad r ch message options"
  by (simp add: sendToChannel_def)

lemma send_enabled:
  "map_of (notifiers r) ch = Some n \<Longrightarrow> n_enabled n \<Longrightarrow>
   sendToChannel ad r ch message options = ad ch message options"
  by (simp add: sendToChannel_def)

lemma notify_admitted:
  assumes "selectChannels r message options = chs" and "chs \<noteq> []"
    and "\<not> isRateLimited r now chs"
  shows "notify ad now now' message options r =
           (Delivery (outcome_of (map (\<lambda>ch. sendToChannel ad r ch message options) chs)),
            updateRateLimits r now' chs)"
  using assms by (simp add: notify_unfold Let_def outcome_of_def filter_map)

lemma notify_queued:
  assumes "selectChannels r message options = chs" and "chs \<noteq> []"
    and "isRateLimited r now chs"
  shows "notify ad now now' message options r =
           (Failure ''Rate limited, message queued'',
            r\<lparr>messageQueue := messageQueue r @
                 [\<lparr>q_message = message, q_options = options, q_channels = chs\<rparr>]\<rparr>)"
  using assms by (simp add: notify_unfold Let_def)

text \<open>One channel with a limit and no global limit.\<close>

lemma single_limited:
  "globalRateLimit (config r) = None \<Longrightarrow> channel_limit r ch = Some limit \<Longrightarrow>
   isRateLimited r now [ch] = exceeded limit (rateLimits r (channel_key ch)) now"
  by (simp add: isRateLimited_def)

lemma single_update:
  "globalRateLimit (config r) = None \<Longrightarrow> channel_limit r ch = Some limit \<Longrightarrow>
   updateRateLimits r now [ch] =
     r\<lparr>rateLimits := (rateLimits r)(channel_key ch \<mapsto>
          bump limit (rateLimits r (channel_key ch)) now)\<rparr>"
  by (simp add: updateRateLimits_def)

lemma single_admitted:
  assumes g: "globalRateLimit (config r) = None"
    and l: "channel_limit r ch = Some limit"
    and s: "selectChannels r message options = [ch]"
    and free: "\<not> exceeded limit (rateLimits r (channel_key ch)) now"
  shows "fst (notify ad now now' message options r) =
           Delivery (outcome_of [sendToChannel ad r ch message options])"
    and "rateLimits (snd (notify ad now now' message options r)) (channel_key ch) =
           Some (bump limit (rateLimits r (channel_key ch)) now')"
    and "config (snd (notify ad now now' message options r)) = config r"
    and "notifiers (snd (notify ad now now' message options r)) = notifiers r"
    and "rules (snd (notify ad now now' message options r)) = rules r"
    and "messageQueue (snd (notify ad now now' message options r)) = messageQueue r"
    and "processing (snd (notify ad now now' message options r)) = processing r"
proof -
  have "\<not> isRateLimited r now [ch]"
    using free by (simp add: single_limited [OF g l])
  from notify_admitted [OF s _ this, of ad now']
  have n: "notify ad now now' message options r =
      (Delivery (outcome_of [sendToChannel ad r ch message options]), updateRateLimits r now' [ch])"
    by simp
  show "fst (notify ad now now' message options r) =
           Delivery (outcome_of [sendToChannel ad r ch message options])"
    by (simp add: n)
  show "rateLimits (snd (notify ad now now' message options r)) (channel_key ch) =
           Some (bump limit (rateLimits r (channel_key ch)) now')"
    by (simp add: n single_update [OF g l])
  show "config (snd (notify ad now now' message options r)) = config r"
    "notifiers (snd (notify ad now now' message options r)) = notifiers r"
    "rules (snd (notify ad now now' message options r)) = rules r"
    "messageQueue (snd (notify ad now now' message options r)) = messageQueue r"
    "processing (snd (notify ad now now' message options r)) = processing r"
    by (simp_all add: n updateRateLimits_static)
qed

lemma muted_notifiers:
  "notifiers muted_router =
     [(''discord'',
       \<lparr>n_config = \<lparr>cfg_enabled = Some False,
                     cfg_rateLimit = Some \<lparr>limit_max = 3, limit_window = 60000\<rparr>\<rparr>,
        n_name = ''discord'', n_enabled = False\<rparr>)]"
  by (simp add: muted_router_def init_def NotificationRouter_def muted_config_def
      load_notifier_def new_notifier_def)

lemma muted_static:
  "config muted_router = muted_config" "rules muted_router = []"
  "messageQueue muted_router = []" "rateLimits muted_router = Map.empty"
  "processing muted_router = False"
  by (simp_all add: muted_router_def init_def NotificationRouter_def muted_config_def)

lemma telegram_start:
  "notify_start ok_adapter now message to_telegram demo_router =
     (Sending [''telegram''] [Inr ''ok''], demo_router)"
  by (simp add: notify_start_def to_telegram_selected isRateLimited_def demo_static
      demo_config_def channel_limit_def demo_notifiers exceeded_def record_or_default_def
      sendToChannel_def ok_adapter_def)

lemma telegram_settle:
  assumes "notifiers r = notifiers demo_router" and "config r = demo_config"
  shows "notify_settle now' [''telegram''] results r =
           (Delivery \<lparr>d_success = (0 < length (filter is_fulfilled results)),
                      d_successful = length (filter is_fulfilled results),
                      d_failed = length (filter is_rejected results),
                      d_total = 1, d_results = results\<rparr>,
            r\<lparr>rateLimits := (rateLimits r)(''channel:telegram'' \<mapsto>
                 bump \<lparr>limit_max = 3, limit_window = 60000\<rparr>
                   (rateLimits r ''channel:telegram'') now')\<rparr>)"
  using assms
  by (simp add: notify_settle_def updateRateLimits_def demo_config_def channel_limit_def
      demo_notifiers channel_key_def Let_def)

text \<open>
  C1, as the claim states it, fails in two ways.  The count of a window is raised only by
  \<open>updateRateLimits\<close>, after the awaited sends: of four calls made one right after the
  other, without waiting for the one before, every one passes the admission check and is
  handed to the adapter, and the count ends at 4 with a limit of 3.  And a channel that is
  registered but disabled is admitted and counted like any other, while the only outcome
  is the refusal of \<open>sendToChannel\<close>: the adapter is not reached.
\<close>

theorem overlapping_calls_counterexample:
  "map (\<lambda>(now, message). notify_start ok_adapter now message to_telegram demo_router)
       [(0, ''a''), (1, ''b''), (2, ''c''), (3, ''d'')] =
     replicate 4 (Sending [''telegram''] [Inr ''ok''], demo_router) \<and>
   rateLimits
     (snd (notify_settle 13 [''telegram''] [Inr ''ok'']
       (snd (notify_settle 12 [''telegram''] [Inr ''ok'']
         (snd (notify_settle 11 [''telegram''] [Inr ''ok'']
           (snd (notify_settle 10 [''telegram''] [Inr ''ok''] demo_router))))))))
     ''channel:telegram'' = Some \<lparr>rl_count = 4, resetAt = 60010\<rparr> \<and>
   notify ok_adapter 0 5 ''a'' to_discord muted_router =
     (Delivery \<lparr>d_success = False, d_successful = 0, d_failed = 1, d_total = 1,
                d_results = [Inl ''Notifier discord is disabled'']\<rparr>,
      muted_router\<lparr>rateLimits := [''channel:discord'' \<mapsto> \<lparr>rl_count = 1, resetAt = 60005\<rparr>]\<rparr>)"
proof -
  have starts: "map (\<lambda>(now, message). notify_start ok_adapter now message to_telegram demo_router)
       [(0, ''a''), (1, ''b''), (2, ''c''), (3, ''d'')] =
     replicate 4 (Sending [''telegram''] [Inr ''ok''], demo_router)"
    by (simp add: telegram_start numeral_eq_Suc)
  have count: "rateLimits
     (snd (notify_settle 13 [''telegram''] [Inr ''ok'']
       (snd (notify_settle 12 [''telegram''] [Inr ''ok'']
         (snd (notify_settle 11 [''telegram''] [Inr ''ok'']
           (snd (notify_settle 10 [''telegram''] [Inr ''ok''] demo_router))))))))
     ''channel:telegram'' = Some \<lparr>rl_count = 4, resetAt = 60010\<rparr>"
    by (simp add: telegram_settle demo_static bump_def record_or_default_def)
  have muted: "notify ok_adapter 0 5 ''a'' to_discord muted_router =
     (Delivery \<lparr>d_success = False, d_successful = 0, d_failed = 1, d_total = 1,
                d_results = [Inl ''Notifier discord is disabled'']\<rparr>,
      muted_router\<lparr>rateLimits := [''channel:discord'' \<mapsto> \<lparr>rl_count = 1, resetAt = 60005\<rparr>]\<rparr>)"
    by (simp add: notify_unfold selectChannels_def to_discord_def plain_def has_def
        muted_notifiers muted_static muted_config_def isRateLimited_def channel_limit_def
        exceeded_def record_or_default_def sendToChannel_def is_fulfilled_def is_rejected_def
        updateRateLimits_def bump_def channel_key_def Let_def)
  from starts count muted show ?thesis by simp
qed

text \<open>
  C1, amended.  An enabled channel has the limit of 3 messages in 60000 ms, there is no
  global limit, and the channel has no record yet.  Four \<open>notify\<close> calls select that
  channel, each made after the one before has returned; the window opens with the first
  send (at \<open>ua\<close>) and the later calls fall before its reset instant \<open>ua + 60000\<close>.  The
  first three are admitted and handed to the channel's adapter, whose answer is the
  outcome; the fourth is refused as rate limited and is the one item of the queue.  At any
  time \<open>t\<close> at or after the reset instant the admission check lets the fourth pass, and a
  drain of the queue at \<open>t\<close> hands it to the adapter and leaves the queue empty.  A call
  that has started and not yet settled has changed no count, so a call made meanwhile
  meets the same admission check.
\<close>

theorem three_admitted_fourth_queued:
  fixes r :: router and ch :: string and ad :: adapter and n :: notifier
    and ma mb mc md :: string and oa ob oc od :: options
    and ca ua cb ub cc uc cd ud t :: int and env :: "nat \<Rightarrow> tick"
  defines "ra \<equiv> snd (notify ad ca ua ma oa r)"
  defines "rb \<equiv> snd (notify ad cb ub mb ob ra)"
  defines "rc \<equiv> snd (notify ad cc uc mc oc rb)"
  defines "rd \<equiv> snd (notify ad cd ud md od rc)"
  assumes "globalRateLimit (config r) = None"
    and "map_of (notifiers r) ch = Some n" and "n_enabled n"
    and "cfg_rateLimit (n_config n) = Some \<lparr>limit_max = 3, limit_window = 60000\<rparr>"
    and "rateLimits r (channel_key ch) = None"
    and "messageQueue r = []" and "\<not> processing r"
    and "selectChannels r ma oa = [ch]" and "selectChannels r mb ob = [ch]"
    and "selectChannels r mc oc = [ch]" and "selectChannels r md od = [ch]"
    and "ub < ua + 60000" and "uc < ua + 60000" and "cd < ua + 60000"
    and "ua + 60000 \<le> t"
  shows "fst (notify ad ca ua ma oa r) = Delivery (outcome_of [ad ch ma oa]) \<and>
         fst (notify ad cb ub mb ob ra) = Delivery (outcome_of [ad ch mb ob]) \<and>
         fst (notify ad cc uc mc oc rb) = Delivery (outcome_of [ad ch mc oc]) \<and>
         fst (notify ad cd ud md od rc) = Failure ''Rate limited, message queued'' \<and>
         messageQueue rd = [\<lparr>q_message = md, q_options = od, q_channels = [ch]\<rparr>] \<and>
         rateLimits rd (channel_key ch) = Some \<lparr>rl_count = 3, resetAt = ua + 60000\<rparr> \<and>
         \<not> isRateLimited rd t [ch] \<and>
         (\<exists>rf. processQueue 1 env t rd =
              Some ([(\<lparr>q_message = md, q_options = od, q_channels = [ch]\<rparr>,
                      Delivery (outcome_of
                        [t_adapter (env 0) ch md (od\<lparr>opt_channels := Some [ch]\<rparr>)]))], rf) \<and>
            messageQueue rf = []) \<and>
         rateLimits (snd (notify_start adx cx mx ox rx)) = rateLimits rx"
proof -
  let ?key = "channel_key ch"
  let ?limit = "\<lparr>limit_max = 3, limit_window = 60000\<rparr>"
  let ?q = "\<lparr>q_message = md, q_options = od, q_channels = [ch]\<rparr>"
  note g = \<open>globalRateLimit (config r) = None\<close>
  note reg = \<open>map_of (notifiers r) ch = Some n\<close>
  note on = \<open>n_enabled n\<close>
  have l: "channel_limit r ch = Some ?limit"
    using reg \<open>cfg_rateLimit (n_config n) = Some ?limit\<close> by (simp add: channel_limit_def)
  note fresh = \<open>rateLimits r ?key = None\<close>
  \<comment> \<open>first call\<close>
  have fa: "\<not> exceeded ?limit (rateLimits r ?key) ca"
    by (simp add: fresh exceeded_def record_or_default_def)
  note a = single_admitted [OF g l \<open>selectChannels r ma oa = [ch]\<close> fa, of ad ua, folded ra_def]
  have outa: "fst (notify ad ca ua ma oa r) = Delivery (outcome_of [ad ch ma oa])"
    using a(1) by (simp add: send_enabled [OF reg on])
  have ka: "rateLimits ra ?key = Some \<lparr>rl_count = 1, resetAt = ua + 60000\<rparr>"
    by (simp add: a(2) fresh bump_def record_or_default_def)
  have ga: "globalRateLimit (config ra) = None" by (simp add: a(3) g)
  have la: "channel_limit ra ch = Some ?limit"
    using l by (simp add: channel_limit_same [OF a(4)])
  have sa: "selectChannels ra mb ob = [ch]"
    using \<open>selectChannels r mb ob = [ch]\<close> by (simp add: selectChannels_same [OF a(4) a(5) a(3)])
  \<comment> \<open>second call\<close>
  have fb: "\<not> exceeded ?limit (rateLimits ra ?key) cb"
    by (simp add: ka exceeded_def record_or_default_def)
  note b = single_admitted [OF ga la sa fb, of ad ub, folded rb_def]
  have outb: "fst (notify ad cb ub mb ob ra) = Delivery (outcome_of [ad ch mb ob])"
    using b(1) by (simp add: sendToChannel_same [OF a(4)] send_enabled [OF reg on])
  have kb: "rateLimits rb ?key = Some \<lparr>rl_count = 2, resetAt = ua + 60000\<rparr>"
    using \<open>ub < ua + 60000\<close> by (simp add: b(2) ka bump_def record_or_default_def)
  have gb: "globalRateLimit (config rb) = None" by (simp add: b(3) ga)
  have lb: "channel_limit rb ch = Some ?limit"
    using la by (simp add: channel_limit_same [OF b(4)])
  have nb: "notifiers rb = notifiers r" by (simp add: b(4) a(4))
  have sb: "selectChannels rb mc oc = [ch]"
    using \<open>selectChannels r mc oc = [ch]\<close>
    by (simp add: selectChannels_same [OF b(4) b(5) b(3)] selectChannels_same [OF a(4) a(5) a(3)])
  \<comment> \<open>third call\<close>
  have fc: "\<not> exceeded ?limit (rateLimits rb ?key) cc"
    by (simp add: kb exceeded_def record_or_default_def)
  note c = single_admitted [OF gb lb sb fc, of ad uc, folded rc_def]
  have outc: "fst (notify ad cc uc mc oc rb) = Delivery (outcome_of [ad ch mc oc])"
    using c(1) by (simp add: sendToChannel_same [OF nb] send_enabled [OF reg on])
  have kc: "rateLimits rc ?key = Some \<lparr>rl_count = 3, resetAt = ua + 60000\<rparr>"
    using \<open>uc < ua + 60000\<close> by (simp add: c(2) kb bump_def record_or_default_def)
  have gc: "globalRateLimit (config rc) = None" by (simp add: c(3) gb)
  have lc: "channel_limit rc ch = Some ?limit"
    using lb by (simp add: channel_limit_same [OF c(4)])
  have nc: "notifiers rc = notifiers r" by (simp add: c(4) nb)
  have sc: "selectChannels rc md od = [ch]"
    using \<open>selectChannels r md od = [ch]\<close>
    by (simp add: selectChannels_same [OF c(4) c(5) c(3)] selectChannels_same [OF b(4) b(5) b(3)]
        selectChannels_same [OF a(4) a(5) a(3)])
  have qc: "messageQueue rc = []" and pc: "\<not> processing rc"
    using \<open>messageQueue r = []\<close> \<open>\<not> processing r\<close> by (simp_all add: a b c)
  \<comment> \<open>fourth call\<close>
  have ld: "isRateLimited rc cd [ch]"
    using \<open>cd < ua + 60000\<close>
    by (simp add: single_limited [OF gc lc] kc exceeded_def record_or_default_def)
  have nd: "notify ad cd ud md od rc =
      (Failure ''Rate limited, message queued'', rc\<lparr>messageQueue := messageQueue rc @ [?q]\<rparr>)"
    using notify_queued [OF sc _ ld, of ad ud] by simp
  have rd: "rd = rc\<lparr>messageQueue := [?q]\<rparr>"
    by (simp add: rd_def nd qc)
  have kd: "rateLimits rd ?key = Some \<lparr>rl_count = 3, resetAt = ua + 60000\<rparr>"
    by (simp add: rd kc)
  \<comment> \<open>at or after the reset instant\<close>
  have gd: "globalRateLimit (config rd) = None" by (simp add: rd gc)
  have limd: "channel_limit rd ch = Some ?limit"
    using lc by (simp add: rd channel_limit_def)
  have free: "\<not> isRateLimited rd t [ch]"
    using \<open>ua + 60000 \<le> t\<close>
    by (simp add: single_limited [OF gd limd] kd exceeded_def record_or_default_def)
  let ?rp = "rd\<lparr>processing := True\<rparr>"
  let ?o = "od\<lparr>opt_channels := Some [ch]\<rparr>"
  have regp: "map_of (notifiers ?rp) ch = Some n"
    using reg by (simp add: rd nc)
  then have selp: "selectChannels ?rp md ?o = [ch]"
    by (simp add: selectChannels_def has_def)
  have freep: "\<not> isRateLimited ?rp t [ch]"
    using free by (simp add: isRateLimited_same [of ?rp rd])
  have ndd: "notify (t_adapter (env 0)) t (t + int (t_send (env 0))) md ?o ?rp =
       (Delivery (outcome_of [t_adapter (env 0) ch md ?o]),
        updateRateLimits ?rp (t + int (t_send (env 0))) [ch])"
    using notify_admitted [OF selp _ freep, of "t_adapter (env 0)" "t + int (t_send (env 0))"]
    by (simp add: send_enabled [OF regp on])
  have qd: "messageQueue rd = [?q]" and pd: "\<not> processing rd"
    using pc by (simp_all add: rd)
  have drain: "processQueue 1 env t rd =
      Some ([(?q, Delivery (outcome_of [t_adapter (env 0) ch md ?o]))],
            (updateRateLimits ?rp (t + int (t_send (env 0))) [ch])
              \<lparr>messageQueue := [], processing := False\<rparr>)"
    using freep by (simp add: processQueue_def qd pd ndd updateRateLimits_static Let_def)
  have start: "rateLimits (snd (notify_start adx cx mx ox rx)) = rateLimits rx"
    by (simp add: notify_start_def Let_def)
  show ?thesis
    using outa outb outc nd qd kd free drain start by simp
qed

theorem three_admitted_fourth_queued_witness:
  "fst (notify ok_adapter 30 35 ''d'' to_telegram
         (snd (notify ok_adapter 20 25 ''c'' to_telegram
           (snd (notify ok_adapter 10 15 ''b'' to_telegram
             (snd (notify ok_adapter 0 5 ''a'' to_telegram demo_router)))))))
     = Failure ''Rate limited, message queued'' \<and>
   fst (notify ok_adapter 20 25 ''c'' to_telegram
           (snd (notify ok_adapter 10 15 ''b'' to_telegram
             (snd (notify ok_adapter 0 5 ''a'' to_telegram demo_router)))))
     = Delivery \<lparr>d_success = True, d_successful = 1, d_failed = 0, d_total = 1,
                 d_results = [Inr ''ok'']\<rparr> \<and>
   \<not> isRateLimited
       (snd (notify ok_adapter 30 35 ''d'' to_telegram
         (snd (notify ok_adapter 20 25 ''c'' to_telegram
           (snd (notify ok_adapter 10 15 ''b'' to_telegram
             (snd (notify ok_adapter 0 5 ''a'' to_telegram demo_router)))))))) 60005 [''telegram'']"
proof -
  let ?n = "\<lparr>n_config = \<lparr>cfg_enabled = None,
                     cfg_rateLimit = Some \<lparr>limit_max = 3, limit_window = 60000\<rparr>\<rparr>,
        n_name = ''telegram'', n_enabled = True\<rparr>"
  have g: "globalRateLimit (config demo_router) = None"
    by (simp add: demo_static demo_config_def)
  have reg: "map_of (notifiers demo_router) ''telegram'' = Some ?n"
    by (simp add: demo_notifiers)
  have on: "n_enabled ?n" by simp
  have l: "cfg_rateLimit (n_config ?n) = Some \<lparr>limit_max = 3, limit_window = 60000\<rparr>"
    by simp
  have k: "rateLimits demo_router (channel_key ''telegram'') = None"
    by (simp add: demo_static)
  have q: "messageQueue demo_router = []" and p: "\<not> processing demo_router"
    by (simp_all add: demo_static)
  have s: "\<And>m. selectChannels demo_router m to_telegram = [''telegram'']"
    by (rule to_telegram_selected)
  have t: "(15::int) < 5 + 60000" "(25::int) < 5 + 60000" "(30::int) < 5 + 60000"
    "(5::int) + 60000 \<le> 60005"
    by simp_all
  from three_admitted_fourth_queued
    [OF g reg on l k q p s [of "''a''"] s [of "''b''"] s [of "''c''"] s [of "''d''"] t,
      where ad = ok_adapter and ca = 0 and cb = 10 and cc = 20 and ud = 35 and env = calm]
  show ?thesis
    by (simp add: outcome_of_def ok_adapter_def is_fulfilled_def is_rejected_def)
qed

section \<open>The drain loop and a blocked head\<close>

lemma drainLoop_returns_empty:
  "drainLoop n env i now r = Some (calls, r') \<Longrightarrow> messageQueue r' = []"
proof (induction n arbitrary: i now r calls)
  case 0
  then show ?case by (simp split: if_splits)
next
  case (Suc n)
  show ?case
  proof (cases "messageQueue r")
    case Nil
    with Suc.prems show ?thesis by simp
  next
    case (Cons q qs)
    show ?thesis
    proof (cases "isRateLimited r now (q_channels q)")
      case True
      with Suc.prems Cons show ?thesis by (auto dest: Suc.IH)
    next
      case False
      with Suc.prems Cons show ?thesis
        by (auto simp: Let_def dest: Suc.IH)
    qed
  qed
qed

lemma waiting_static:
  "config waiting_router = demo_config" "notifiers waiting_router = notifiers demo_router"
  "processing waiting_router = False"
  "messageQueue waiting_router =
     [\<lparr>q_message = ''first'', q_options = to_telegram, q_channels = [''telegram'']\<rparr>,
      \<lparr>q_message = ''second'', q_options = to_telegram, q_channels = [''telegram'']\<rparr>]"
  "rateLimits waiting_router = [''channel:telegram'' \<mapsto> \<lparr>rl_count = 3, resetAt = 60000\<rparr>]"
  by (simp_all add: waiting_router_def full_static)

lemma telegram_limited:
  assumes "notifiers r = notifiers demo_router" and "config r = demo_config"
  shows "isRateLimited r now [''telegram''] =
           exceeded \<lparr>limit_max = 3, limit_window = 60000\<rparr> (rateLimits r ''channel:telegram'') now"
  using assms
  by (simp add: isRateLimited_def demo_config_def channel_limit_def demo_notifiers channel_key_def)

lemma telegram_notify:
  assumes "notifiers r = notifiers demo_router" and "config r = demo_config"
    and "\<not> exceeded \<lparr>limit_max = 3, limit_window = 60000\<rparr> (rateLimits r ''channel:telegram'') now"
  shows "notify ok_adapter now now' message (to_telegram\<lparr>opt_channels := Some [''telegram'']\<rparr>) r =
           (Delivery \<lparr>d_success = True, d_successful = 1, d_failed = 0, d_total = 1,
                      d_results = [Inr ''ok'']\<rparr>,
            r\<lparr>rateLimits := (rateLimits r)(''channel:telegram'' \<mapsto>
                 bump \<lparr>limit_max = 3, limit_window = 60000\<rparr> (rateLimits r ''channel:telegram'') now')\<rparr>)"
  using assms
  by (simp add: notify_unfold selectChannels_def has_def demo_notifiers telegram_limited
      sendToChannel_def ok_adapter_def is_fulfilled_def is_rejected_def updateRateLimits_def
      demo_config_def channel_limit_def channel_key_def Let_def)

text \<open>
  C5, as the claim states it, fails.  \<open>processQueue\<close> reads \<open>messageQueue[0]\<close> without
  removing it; when the head is rate limited it awaits a timer of one second and runs the
  loop again.  Here the head is blocked at 59500: after one iteration the invocation has
  not returned, and within the same invocation, one second later, it sends the head and
  then the item behind it, in the order of the queue.
\<close>

theorem drain_counterexample:
  "isRateLimited waiting_router 59500 (q_channels (hd (messageQueue waiting_router))) \<and>
   processQueue 1 calm 59500 waiting_router = None \<and>
   map_option (\<lambda>(calls, rf). (map (\<lambda>c. (q_message (fst c), snd c)) calls, messageQueue rf))
     (processQueue 3 calm 59500 waiting_router) =
     Some ([(''first'', Delivery \<lparr>d_success = True, d_successful = 1, d_failed = 0, d_total = 1,
                                  d_results = [Inr ''ok'']\<rparr>),
            (''second'', Delivery \<lparr>d_success = True, d_successful = 1, d_failed = 0, d_total = 1,
                                   d_results = [Inr ''ok'']\<rparr>)], [])"
  by (simp add: processQueue_def waiting_static telegram_limited telegram_notify exceeded_def
      record_or_default_def bump_def calm_def numeral_3_eq_3 Let_def)

text \<open>
  C5, amended.  When the head item of the queue is still rate limited, the drain leaves
  the router as it is (the item stays at the head of the queue, nothing is dropped), waits
  for at least 1000 ms and checks the same head again within the same invocation.  An
  invocation that returns has used at least one iteration and leaves the queue empty.
\<close>

theorem drain_waits_at_head:
  assumes "messageQueue r = q # qs" and "isRateLimited r now (q_channels q)"
  shows "drainLoop (Suc n) env i now r =
           drainLoop n env (Suc i) (now + 1000 + int (t_late (env i))) r \<and>
         (\<not> processing r \<longrightarrow>
            processQueue (Suc n) env now r =
              map_option (\<lambda>(calls, rf). (calls, rf\<lparr>processing := False\<rparr>))
                (drainLoop n env 1 (now + 1000 + int (t_late (env 0))) (r\<lparr>processing := True\<rparr>))) \<and>
         (\<not> processing r \<and> processQueue k env now r = Some (calls, r') \<longrightarrow>
            0 < k \<and> messageQueue r' = [])"
proof -
  have blocked: "isRateLimited (r\<lparr>processing := True\<rparr>) now (q_channels q)"
    using assms(2) by (simp add: isRateLimited_same [of "r\<lparr>processing := True\<rparr>" r])
  have one: "drainLoop (Suc n) env i now r =
           drainLoop n env (Suc i) (now + 1000 + int (t_late (env i))) r"
    using assms by simp
  have two: "\<not> processing r \<longrightarrow>
            processQueue (Suc n) env now r =
              map_option (\<lambda>(calls, rf). (calls, rf\<lparr>processing := False\<rparr>))
                (drainLoop n env 1 (now + 1000 + int (t_late (env 0))) (r\<lparr>processing := True\<rparr>))"
    using assms(1) blocked by (simp add: processQueue_def)
  have three: "\<not> processing r \<and> processQueue k env now r = Some (calls, r') \<longrightarrow>
            0 < k \<and> messageQueue r' = []"
  proof (intro impI, elim conjE)
    assume idle: "\<not> processing r" and ret: "processQueue k env now r = Some (calls, r')"
    from ret idle assms(1) obtain rf where
      loop: "drainLoop k env 0 now (r\<lparr>processing := True\<rparr>) = Some (calls, rf)"
      and r': "r' = rf\<lparr>processing := False\<rparr>"
      by (auto simp: processQueue_def)
    have "0 < k"
    proof (rule ccontr)
      assume "\<not> 0 < k"
      then have "k = 0" by simp
      with loop assms(1) show False by simp
    qed
    moreover have "messageQueue r' = []"
      using drainLoop_returns_empty [OF loop] by (simp add: r')
    ultimately show "0 < k \<and> messageQueue r' = []" by simp
  qed
  from one two three show ?thesis by blast
qed

theorem drain_waits_at_head_witness:
  "drainLoop 3 calm 0 59500 waiting_router = drainLoop 2 calm 1 60500 waiting_router \<and>
   messageQueue waiting_router =
     [\<lparr>q_message = ''first'', q_options = to_telegram, q_channels = [''telegram'']\<rparr>,
      \<lparr>q_message = ''second'', q_options = to_telegram, q_channels = [''telegram'']\<rparr>]"
proof -
  let ?q = "\<lparr>q_message = ''first'', q_options = to_telegram, q_channels = [''telegram'']\<rparr>"
  let ?qs = "[\<lparr>q_message = ''second'', q_options = to_telegram, q_channels = [''telegram'']\<rparr>]"
  have a: "messageQueue waiting_router = ?q # ?qs"
    by (simp add: waiting_static)
  have b: "isRateLimited waiting_router 59500 (q_channels ?q)"
    by (simp add: telegram_limited waiting_static exceeded_def record_or_default_def)
  from drain_waits_at_head [OF a b, of 2 calm 0]
  show ?thesis
    by (simp add: a calm_def numeral_3_eq_3)
qed

section \<open>Every queued notification is sent once\<close>

lemma exceeded_needs_open_window:
  "1 \<le> limit_max limit \<Longrightarrow> exceeded limit rec now \<Longrightarrow> \<exists>x. rec = Some x \<and> now < resetAt x"
  by (cases rec) (auto simp: exceeded_def record_or_default_def)

lemma channel_ok_limit:
  "channel_ok r ch \<Longrightarrow> channel_limit r ch = Some limit \<Longrightarrow> 1 \<le> limit_max limit"
  by (auto simp: channel_ok_def channel_limit_def admits_one_def split: option.splits)

lemma channels_free_later:
  assumes "list_all (channel_ok r) chs"
  shows "\<exists>B. \<forall>now\<ge>B. \<not> channelsLimited r now chs"
  using assms
proof (induction chs)
  case Nil
  show ?case by simp
next
  case (Cons ch chs)
  then obtain B where B: "\<forall>now\<ge>B. \<not> channelsLimited r now chs" by auto
  from Cons.prems have ok: "channel_ok r ch" by simp
  show ?case
  proof (cases "channel_limit r ch")
    case None
    with B show ?thesis by auto
  next
    case (Some limit)
    have pos: "1 \<le> limit_max limit"
      using ok Some by (rule channel_ok_limit)
    show ?thesis
    proof (cases "rateLimits r (channel_key ch)")
      case None
      then have "\<And>now. \<not> exceeded limit (rateLimits r (channel_key ch)) now"
        using exceeded_needs_open_window [OF pos] by fastforce
      with B Some show ?thesis by auto
    next
      case (Some x)
      have "\<forall>now\<ge>max B (resetAt x). \<not> channelsLimited r now (ch # chs)"
      proof (intro allI impI)
        fix now assume late: "max B (resetAt x) \<le> now"
        have "\<not> exceeded limit (rateLimits r (channel_key ch)) now"
          using exceeded_needs_open_window [OF pos, of "rateLimits r (channel_key ch)" now] Some late
          by auto
        moreover have "\<not> channelsLimited r now chs"
          using B late by simp
        ultimately show "\<not> channelsLimited r now (ch # chs)"
          using \<open>channel_limit r ch = Some limit\<close> by simp
      qed
      then show ?thesis ..
    qed
  qed
qed

lemma free_later:
  assumes "admits_one (globalRateLimit (config r))" and "list_all (channel_ok r) chs"
  shows "\<exists>B. \<forall>now\<ge>B. \<not> isRateLimited r now chs"
proof -
  from channels_free_later [OF assms(2)] obtain B where
    B: "\<forall>now\<ge>B. \<not> channelsLimited r now chs" by blast
  show ?thesis
  proof (cases "globalRateLimit (config r)")
    case None
    with B show ?thesis by (auto simp: isRateLimited_def)
  next
    case (Some limit)
    have pos: "1 \<le> limit_max limit"
      using assms(1) Some by (simp add: admits_one_def)
    show ?thesis
    proof (cases "rateLimits r ''global''")
      case None
      then have "\<And>now. \<not> exceeded limit (rateLimits r ''global'') now"
        using exceeded_needs_open_window [OF pos] by fastforce
      with B Some show ?thesis by (auto simp: isRateLimited_def)
    next
      case (Some x)
      have "\<forall>now\<ge>max B (resetAt x). \<not> isRateLimited r now chs"
      proof (intro allI impI)
        fix now assume late: "max B (resetAt x) \<le> now"
        have "\<not> exceeded limit (rateLimits r ''global'') now"
          using exceeded_needs_open_window [OF pos, of "rateLimits r ''global''" now] Some late
          by auto
        moreover have "\<not> channelsLimited r now chs"
          using B late by simp
        ultimately show "\<not> isRateLimited r now chs"
          using \<open>globalRateLimit (config r) = Some limit\<close> by (simp add: isRateLimited_def)
      qed
      then show ?thesis ..
    qed
  qed
qed

text \<open>While the head is blocked the loop only waits, and it does not wait for ever.\<close>

lemma drain_wait:
  assumes "admits_one (globalRateLimit (config r))" and "list_all (channel_ok r) (q_channels q)"
    and "messageQueue r = q # qs"
  shows "\<exists>k t. \<not> isRateLimited r t (q_channels q) \<and>
           (\<forall>n. drainLoop (k + n) env i now r = drainLoop n env (i + k) t r)"
proof -
  from free_later [OF assms(1,2)] obtain B where
    B: "\<forall>t\<ge>B. \<not> isRateLimited r t (q_channels q)" by blast
  show ?thesis
  proof (induction "nat (B - now)" arbitrary: now i rule: less_induct)
    case less
    show ?case
    proof (cases "isRateLimited r now (q_channels q)")
      case False
      then have "\<not> isRateLimited r now (q_channels q) \<and>
           (\<forall>n. drainLoop (0 + n) env i now r = drainLoop n env (i + 0) now r)" by simp
      then show ?thesis by blast
    next
      case True
      let ?now = "now + 1000 + int (t_late (env i))"
      have "now < B"
      proof (rule ccontr)
        assume "\<not> now < B"
        then have "B \<le> now" by simp
        with B True show False by blast
      qed
      then have "nat (B - ?now) < nat (B - now)" by simp
      from less [OF this, of "Suc i"] obtain k t where
        free: "\<not> isRateLimited r t (q_channels q)"
        and run: "\<forall>n. drainLoop (k + n) env (Suc i) ?now r = drainLoop n env (Suc i + k) t r"
        by blast
      have "\<forall>n. drainLoop (Suc k + n) env i now r = drainLoop n env (i + Suc k) t r"
        using True assms(3) run by simp
      with free show ?thesis by blast
    qed
  qed
qed

text \<open>The head is admitted: it goes to the adapter of each of its channels and leaves the queue.\<close>

lemma drain_dispatch:
  assumes "messageQueue r = q # qs" and "\<not> isRateLimited r now (q_channels q)"
    and "item_ok r q"
  shows "drainLoop (Suc n) env i now r =
           map_option (\<lambda>(calls, rf). ((q, handed_over (t_adapter (env i)) q) # calls, rf))
             (drainLoop n env (Suc i) (now + int (t_send (env i)) + int (t_resume (env i)))
                ((updateRateLimits r (now + int (t_send (env i))) (q_channels q))
                   \<lparr>messageQueue := qs\<rparr>))"
proof -
  let ?o = "(q_options q)\<lparr>opt_channels := Some (q_channels q)\<rparr>"
  let ?ad = "t_adapter (env i)"
  from assms(3) have ne: "q_channels q \<noteq> []"
    and each: "\<And>ch. ch \<in> set (q_channels q) \<Longrightarrow> channel_ok r ch"
    by (simp_all add: item_ok_def list_all_iff)
  have reg: "has r ch" if "ch \<in> set (q_channels q)" for ch
    using each [OF that] by (simp add: channel_ok_def has_def split: option.splits)
  have sel: "selectChannels r (q_message q) ?o = q_channels q"
    using reg by (simp add: selectChannels_def)
  have "sendToChannel ?ad r ch (q_message q) ?o = ?ad ch (q_message q) ?o"
    if "ch \<in> set (q_channels q)" for ch
    using each [OF that] by (simp add: channel_ok_def sendToChannel_def split: option.splits)
  then have res: "map (\<lambda>ch. sendToChannel ?ad r ch (q_message q) ?o) (q_channels q) =
      map (\<lambda>ch. ?ad ch (q_message q) ?o) (q_channels q)"
    by simp
  have n: "notify ?ad now (now + int (t_send (env i))) (q_message q) ?o r =
        (handed_over ?ad q, updateRateLimits r (now + int (t_send (env i))) (q_channels q))"
    using notify_admitted [OF sel ne assms(2), of ?ad "now + int (t_send (env i))"]
    by (simp only: res handed_over_def)
  show ?thesis
    using assms(1,2) by (simp add: n Let_def updateRateLimits_static)
qed

lemma drain_all:
  assumes "messageQueue r = qs" and "queue_ok r"
  shows "\<exists>n js r'.
           drainLoop n env i now r =
             Some (map (\<lambda>(j, q). (q, handed_over (t_adapter (env j)) q)) (zip js qs), r') \<and>
           length js = length qs \<and> sorted_wrt (<) js \<and> (\<forall>j\<in>set js. i \<le> j) \<and>
           messageQueue r' = []"
  using assms
proof (induction qs arbitrary: r i now)
  case Nil
  then have "drainLoop 0 env i now r =
      Some (map (\<lambda>(j, q). (q, handed_over (t_adapter (env j)) q)) (zip [] []), r)"
    by simp
  moreover have "length ([]::nat list) = length ([]::queued list)" by simp
  moreover have "sorted_wrt (<) ([]::nat list)" by simp
  moreover have "\<forall>j\<in>set ([]::nat list). i \<le> j" by simp
  ultimately show ?case
    using Nil.prems(1) by blast
next
  case (Cons q qs)
  from Cons.prems have glob: "admits_one (globalRateLimit (config r))"
    and head: "item_ok r q" and rest: "list_all (item_ok r) qs"
    by (simp_all add: queue_ok_def)
  from head have chans: "list_all (channel_ok r) (q_channels q)"
    by (simp add: item_ok_def)
  from drain_wait [OF glob chans Cons.prems(1), of env i now] obtain k t where
    free: "\<not> isRateLimited r t (q_channels q)"
    and wait: "\<And>n. drainLoop (k + n) env i now r = drainLoop n env (i + k) t r"
    by blast
  let ?u = "t + int (t_send (env (i + k)))"
  let ?r = "(updateRateLimits r ?u (q_channels q))\<lparr>messageQueue := qs\<rparr>"
  have q': "messageQueue ?r = qs" by simp
  have "queue_ok ?r = queue_ok (r\<lparr>messageQueue := qs\<rparr>)"
    by (rule queue_ok_same) (simp_all add: updateRateLimits_static)
  moreover have "queue_ok (r\<lparr>messageQueue := qs\<rparr>)"
  proof -
    have chan: "channel_ok (r\<lparr>messageQueue := qs\<rparr>) = channel_ok r"
    proof (rule ext)
      fix ch show "channel_ok (r\<lparr>messageQueue := qs\<rparr>) ch = channel_ok r ch"
        by (simp add: channel_ok_def)
    qed
    have "item_ok (r\<lparr>messageQueue := qs\<rparr>) = item_ok r"
    proof (rule ext)
      fix x show "item_ok (r\<lparr>messageQueue := qs\<rparr>) x = item_ok r x"
        by (simp add: item_ok_def chan)
    qed
    then show ?thesis
      using glob rest by (simp add: queue_ok_def)
  qed
  ultimately have ok': "queue_ok ?r" by simp
  from Cons.IH [OF q' ok', of "Suc (i + k)" "?u + int (t_resume (env (i + k)))"]
  obtain n js r' where
    tail: "drainLoop n env (Suc (i + k)) (?u + int (t_resume (env (i + k)))) ?r =
             Some (map (\<lambda>(j, q). (q, handed_over (t_adapter (env j)) q)) (zip js qs), r')"
    and len: "length js = length qs" and incr: "sorted_wrt (<) js"
    and above: "\<forall>j\<in>set js. Suc (i + k) \<le> j" and empty: "messageQueue r' = []"
    by blast
  have step: "drainLoop (Suc n) env (i + k) t r =
             map_option (\<lambda>(calls, rf). ((q, handed_over (t_adapter (env (i + k))) q) # calls, rf))
               (drainLoop n env (Suc (i + k)) (?u + int (t_resume (env (i + k)))) ?r)"
    by (rule drain_dispatch [OF Cons.prems(1) free head])
  have run: "drainLoop (k + Suc n) env i now r =
      Some (map (\<lambda>(j, q). (q, handed_over (t_adapter (env j)) q)) (zip ((i + k) # js) (q # qs)), r')"
    by (simp only: wait step tail) simp
  have len': "length ((i + k) # js) = length (q # qs)"
    using len by simp
  have incr': "sorted_wrt (<) ((i + k) # js)"
    using incr above by auto
  have above': "\<forall>j\<in>set ((i + k) # js). i \<le> j"
    using above by auto
  show ?case
  proof (intro exI conjI)
    show "drainLoop (k + Suc n) env i now r =
      Some (map (\<lambda>(j, q). (q, handed_over (t_adapter (env j)) q)) (zip ((i + k) # js) (q # qs)), r')"
      by (fact run)
    show "length ((i + k) # js) = length (q # qs)" by (fact len')
    show "sorted_wrt (<) ((i + k) # js)" by (fact incr')
    show "\<forall>j\<in>set ((i + k) # js). i \<le> j" by (fact above')
    show "messageQueue r' = []" by (fact empty)
  qed
qed

text \<open>With no other caller the loop among others is the loop alone.\<close>

lemma run_no_calls: "run_calls [] r = r"
  by (simp add: run_calls_def)

lemma among_none:
  assumes "\<forall>i. others i = []"
  shows "drainLoop_among n env others i now r = drainLoop n env i now r"
proof (induction n arbitrary: i now r)
  case 0
  show ?case by simp
next
  case (Suc n)
  show ?case
  proof (cases "messageQueue r")
    case Nil
    then show ?thesis by simp
  next
    case (Cons q qs)
    let ?o = "(q_options q)\<lparr>opt_channels := Some (q_channels q)\<rparr>"
    let ?now = "now + int (t_send (env i))"
    have none: "others i = []"
      using assms by simp
    show ?thesis
    proof (cases "isRateLimited r now (q_channels q)")
      case True
      with Cons show ?thesis by (simp add: Suc.IH run_no_calls none)
    next
      case False
      obtain st r1 where
        start: "notify_start (t_adapter (env i)) now (q_message q) ?o r = (st, r1)"
        by fastforce
      show ?thesis
      proof (cases st)
        case (Refused why)
        with False Cons start show ?thesis
          by (simp add: Suc.IH notify_def run_no_calls none Let_def)
      next
        case (Sending chs results)
        with False Cons start show ?thesis
          by (simp add: Suc.IH notify_def run_no_calls none Let_def)
      qed
    qed
  qed
qed

text \<open>
  Another caller can keep the head of the queue from ever being sent.  The limit is one
  message a second; the drain looks at every full second, the other caller sends at every
  half second, is admitted, and opens a window that covers the drain's next look.
\<close>

lemma tight_notifiers:
  "notifiers tight_router =
     [(''telegram'',
       \<lparr>n_config = \<lparr>cfg_enabled = None,
                     cfg_rateLimit = Some \<lparr>limit_max = 1, limit_window = 1000\<rparr>\<rparr>,
        n_name = ''telegram'', n_enabled = True\<rparr>)]"
  by (simp add: tight_router_def init_def NotificationRouter_def tight_config_def
      load_notifier_def new_notifier_def)

lemma tight_static:
  "config tight_router = tight_config" "processing tight_router = False"
  "messageQueue tight_router =
     [\<lparr>q_message = ''first'', q_options = to_telegram, q_channels = [''telegram'']\<rparr>]"
  "rateLimits tight_router ''channel:telegram'' = Some \<lparr>rl_count = 1, resetAt = 500\<rparr>"
  by (simp_all add: tight_router_def init_def NotificationRouter_def tight_config_def)

lemma tight_limited:
  assumes "notifiers r = notifiers tight_router" and "config r = tight_config"
  shows "isRateLimited r now [''telegram''] =
           exceeded \<lparr>limit_max = 1, limit_window = 1000\<rparr> (rateLimits r ''channel:telegram'') now"
  using assms
  by (simp add: isRateLimited_def tight_config_def channel_limit_def tight_notifiers channel_key_def)

lemma tight_notify:
  assumes "notifiers r = notifiers tight_router" and "config r = tight_config"
    and "\<not> exceeded \<lparr>limit_max = 1, limit_window = 1000\<rparr> (rateLimits r ''channel:telegram'') now"
  shows "snd (notify ok_adapter now now' message to_telegram r) =
           r\<lparr>rateLimits := (rateLimits r)(''channel:telegram'' \<mapsto>
                bump \<lparr>limit_max = 1, limit_window = 1000\<rparr> (rateLimits r ''channel:telegram'') now')\<rparr>"
  using assms
  by (simp add: notify_unfold selectChannels_def to_telegram_def plain_def has_def tight_notifiers
      tight_limited updateRateLimits_def tight_config_def channel_limit_def channel_key_def Let_def)

lemma starved_loop:
  assumes "notifiers r = notifiers tight_router" and "config r = tight_config"
    and "messageQueue r =
           [\<lparr>q_message = ''first'', q_options = to_telegram, q_channels = [''telegram'']\<rparr>]"
    and "rateLimits r ''channel:telegram'' = Some \<lparr>rl_count = 1, resetAt = 1000 * int i + 500\<rparr>"
  shows "drainLoop_among n calm pushy i (1000 * int i) r = None"
  using assms
proof (induction n arbitrary: i r)
  case 0
  then show ?case by simp
next
  case (Suc n)
  let ?now = "1000 * int i"
  have blocked: "isRateLimited r ?now [''telegram'']"
    by (simp add: tight_limited [OF Suc.prems(1,2)] Suc.prems(4) exceeded_def record_or_default_def)
  have free: "\<not> exceeded \<lparr>limit_max = 1, limit_window = 1000\<rparr>
      (rateLimits r ''channel:telegram'') (?now + 500)"
    by (simp add: Suc.prems(4) exceeded_def record_or_default_def)
  let ?r = "run_calls (pushy i) r"
  have r': "?r = r\<lparr>rateLimits := (rateLimits r)(''channel:telegram'' \<mapsto>
      \<lparr>rl_count = 1, resetAt = 1000 * int (Suc i) + 500\<rparr>)\<rparr>"
    using tight_notify [OF Suc.prems(1,2) free, of "?now + 500" "''other''"]
    by (simp add: run_calls_def pushy_def Suc.prems(4) bump_def record_or_default_def)
  have later: "1000 * int (Suc i) = 1000 * int i + 1000"
    by simp
  have "drainLoop_among n calm pushy (Suc i) (1000 * int (Suc i)) ?r = None"
    by (rule Suc.IH) (simp_all add: r' Suc.prems)
  then have "drainLoop_among n calm pushy (Suc i) (1000 * int i + 1000) ?r = None"
    by (simp only: later)
  moreover have "t_late (calm i) = 0"
    by (simp add: calm_def)
  ultimately show ?case
    using blocked Suc.prems(3) by simp
qed

lemma drain_starved: "processQueue_among n calm pushy 0 tight_router = None"
proof -
  let ?r = "tight_router\<lparr>processing := True\<rparr>"
  have "drainLoop_among n calm pushy 0 (1000 * int 0) ?r = None"
    by (rule starved_loop) (simp_all add: tight_static)
  then show ?thesis
    by (simp add: processQueue_among_def tight_static)
qed

lemma muted_waiting_static:
  "config muted_waiting = muted_config" "notifiers muted_waiting = notifiers muted_router"
  "processing muted_waiting = False"
  "messageQueue muted_waiting =
     [\<lparr>q_message = ''backup failed'', q_options = to_discord, q_channels = [''discord'']\<rparr>]"
  "rateLimits muted_waiting = [''channel:discord'' \<mapsto> \<lparr>rl_count = 3, resetAt = 60000\<rparr>]"
  by (simp_all add: muted_waiting_def muted_static)

lemma discord_limited:
  assumes "notifiers r = notifiers muted_router" and "config r = muted_config"
  shows "isRateLimited r now [''discord''] =
           exceeded \<lparr>limit_max = 3, limit_window = 60000\<rparr> (rateLimits r ''channel:discord'') now"
  using assms
  by (simp add: isRateLimited_def muted_config_def channel_limit_def muted_notifiers channel_key_def)

lemma discord_notify:
  assumes "notifiers r = notifiers muted_router" and "config r = muted_config"
    and "\<not> exceeded \<lparr>limit_max = 3, limit_window = 60000\<rparr> (rateLimits r ''channel:discord'') now"
  shows "notify ad now now' message (to_discord\<lparr>opt_channels := Some [''discord'']\<rparr>) r =
           (Delivery \<lparr>d_success = False, d_successful = 0, d_failed = 1, d_total = 1,
                      d_results = [Inl ''Notifier discord is disabled'']\<rparr>,
            r\<lparr>rateLimits := (rateLimits r)(''channel:discord'' \<mapsto>
                 bump \<lparr>limit_max = 3, limit_window = 60000\<rparr> (rateLimits r ''channel:discord'') now')\<rparr>)"
  using assms
  by (simp add: notify_unfold selectChannels_def has_def muted_notifiers discord_limited
      sendToChannel_def is_fulfilled_def is_rejected_def updateRateLimits_def
      muted_config_def channel_limit_def channel_key_def Let_def)

text \<open>
  C10, as the claim states it, fails in two ways.  A notification that was queued for a
  channel that is registered but disabled (such a channel is selected, counted and rate
  limited like any other) is taken from the queue by the drain when the window is over,
  and the only outcome is the refusal of \<open>sendToChannel\<close>: it reaches no adapter and is
  gone.  And the drain shares the windows with every other caller: with the other caller
  above the head of the queue is still unsent after a minute, and by \<open>drain_starved\<close>
  after any number of iterations.
\<close>

theorem drain_loses_counterexample:
  "isRateLimited muted_waiting 59500 [''discord''] \<and>
   map_option (\<lambda>(calls, rf). (calls, messageQueue rf))
     (processQueue 2 calm 59500 muted_waiting) =
     Some ([(\<lparr>q_message = ''backup failed'', q_options = to_discord, q_channels = [''discord'']\<rparr>,
             Delivery \<lparr>d_success = False, d_successful = 0, d_failed = 1, d_total = 1,
                        d_results = [Inl ''Notifier discord is disabled'']\<rparr>)], []) \<and>
   processQueue_among 60 calm pushy 0 tight_router = None"
proof -
  have blocked: "isRateLimited muted_waiting 59500 [''discord'']"
    by (simp add: discord_limited muted_waiting_static exceeded_def record_or_default_def)
  have gone: "map_option (\<lambda>(calls, rf). (calls, messageQueue rf))
     (processQueue 2 calm 59500 muted_waiting) =
     Some ([(\<lparr>q_message = ''backup failed'', q_options = to_discord, q_channels = [''discord'']\<rparr>,
             Delivery \<lparr>d_success = False, d_successful = 0, d_failed = 1, d_total = 1,
                        d_results = [Inl ''Notifier discord is disabled'']\<rparr>)], [])"
    by (simp add: processQueue_def muted_waiting_static discord_limited discord_notify exceeded_def
        record_or_default_def bump_def calm_def numeral_2_eq_2 Let_def)
  from blocked gone drain_starved [of 60] show ?thesis by simp
qed

text \<open>
  C10, amended.  Take a router that no drain is working on, with a queue in which every
  item names only registered and enabled channels, where the global limit and the limits
  of those channels admit at least one message in a window (a limit of zero with a
  positive window blocks for ever), and let no other call of \<open>notify\<close> run while the queue
  is drained.  Whatever the delays and the adapters' answers, a drain with enough
  iterations returns; it has handed each queued item, in the order of the queue and each
  in an iteration of its own, to the adapters of all its channels, the outcomes are the
  adapters' answers, and the queue is empty.
\<close>

theorem queue_drains_exactly_once:
  assumes "queue_ok r" and "\<not> processing r" and "\<forall>i. others i = []"
  shows "\<exists>n js r'.
           processQueue_among n env others now r =
             Some (map (\<lambda>(j, q). (q, handed_over (t_adapter (env j)) q))
                     (zip js (messageQueue r)), r') \<and>
           length js = length (messageQueue r) \<and> sorted_wrt (<) js \<and>
           messageQueue r' = []"
proof (cases "messageQueue r")
  case Nil
  have "processQueue_among 0 env others now r =
      Some (map (\<lambda>(j, q). (q, handed_over (t_adapter (env j)) q)) (zip [] (messageQueue r)), r)"
    using Nil by (simp add: processQueue_among_def)
  moreover have "length ([]::nat list) = length (messageQueue r)"
    using Nil by simp
  moreover have "sorted_wrt (<) ([]::nat list)" by simp
  ultimately show ?thesis
    using Nil by blast
next
  case (Cons q qs)
  let ?r = "r\<lparr>processing := True\<rparr>"
  have "queue_ok ?r = queue_ok r"
    by (rule queue_ok_same) simp_all
  with assms(1) have ok: "queue_ok ?r" by simp
  have "messageQueue ?r = messageQueue r" by simp
  from drain_all [OF this ok, of env 0 now] obtain n js rf where
    loop: "drainLoop n env 0 now ?r =
       Some (map (\<lambda>(j, q). (q, handed_over (t_adapter (env j)) q)) (zip js (messageQueue r)), rf)"
    and len: "length js = length (messageQueue r)" and incr: "sorted_wrt (<) js"
    and empty: "messageQueue rf = []"
    by blast
  have run: "processQueue_among n env others now r =
      Some (map (\<lambda>(j, q). (q, handed_over (t_adapter (env j)) q)) (zip js (messageQueue r)),
            rf\<lparr>processing := False\<rparr>)"
    using assms(2) Cons loop by (simp add: processQueue_among_def among_none [OF assms(3)])
  have empty': "messageQueue (rf\<lparr>processing := False\<rparr>) = []"
    using empty by simp
  show ?thesis
  proof (intro exI conjI)
    show "processQueue_among n env others now r =
      Some (map (\<lambda>(j, q). (q, handed_over (t_adapter (env j)) q)) (zip js (messageQueue r)),
            rf\<lparr>processing := False\<rparr>)"
      by (fact run)
    show "length js = length (messageQueue r)" by (fact len)
    show "sorted_wrt (<) js" by (fact incr)
    show "messageQueue (rf\<lparr>processing := False\<rparr>) = []" by (fact empty')
  qed
qed

theorem queue_drains_exactly_once_witness:
  "\<exists>n js r'.
      processQueue_among n calm quiet 59500 waiting_router =
        Some (map (\<lambda>(j, q). (q, handed_over (t_adapter (calm j)) q))
                (zip js
                  [\<lparr>q_message = ''first'', q_options = to_telegram, q_channels = [''telegram'']\<rparr>,
                   \<lparr>q_message = ''second'', q_options = to_telegram, q_channels = [''telegram'']\<rparr>]),
              r') \<and>
      length js = 2 \<and> sorted_wrt (<) js \<and> messageQueue r' = []"
proof -
  have a: "queue_ok waiting_router"
    by (simp add: queue_ok_def item_ok_def channel_ok_def waiting_static demo_config_def
        demo_notifiers admits_one_def)
  have b: "\<not> processing waiting_router"
    by (simp add: waiting_static)
  have c: "\<forall>i. quiet i = []"
    by (simp add: quiet_def)
  show ?thesis
    using queue_drains_exactly_once [OF a b c, of calm 59500]
    by (simp add: waiting_static numeral_2_eq_2)
qed

end
